theory Spec2Isabelle
  imports Complex_Main "HOL-Library.Multiset" "HOL-Library.Log_Nat"
begin

section \<open>Water-monitoring dashboard (App.js): data model\<close>

text \<open>
  The dashboard polls an HTTP endpoint for sensor readings and derives the displayed
  values from the list it received. This theory embeds the derived-data logic of
  \<^verbatim>\<open>src/App.js\<close>: \<^verbatim>\<open>parseTimestamp\<close>, \<^verbatim>\<open>fetchData\<close>, \<^verbatim>\<open>latestReading\<close>,
  \<^verbatim>\<open>averageReading\<close>, \<^verbatim>\<open>pumpStatus\<close>, \<^verbatim>\<open>chartData\<close> and the sorted history list.

  Conventions.
  \<^item> A JavaScript string is a \<open>string\<close>; each \<open>char\<close> stands for one code unit in the
    range 0..255.
  \<^item> A finite JavaScript number is the \<open>rat\<close> it denotes. Additions and divisions of
    numbers round to the nearest double (section averageReading); time values are
    integers far below \<open>2^53\<close>, on which the arithmetic is exact.
  \<^item> A \<^verbatim>\<open>Date\<close> is its time value: \<open>Some t\<close> for \<open>t\<close> milliseconds since the epoch,
    \<open>None\<close> for the time value NaN (an invalid date).
  \<^item> An exception is the \<open>Inl\<close> side of a sum.
\<close>

type_synonym date = "int option"

datatype js_error = TypeError | NetworkFailure | ConnectionFailed | SyntaxError

text \<open>The primitive values a JSON field can hold (\<open>JUndefined\<close>: the field is missing).\<close>

datatype jsval = JUndefined | JNull | JBool bool | JNum rat | JStr string

text \<open>
  The reading of the data model:
  \<^verbatim>\<open>{ id, leitura: number, status: string, bombaLigada: "Sim"|other, timestamp: string }\<close>,
  where the timestamp may be absent.
\<close>

record reading =
  reading_id :: nat
  leitura :: rat
  status :: string
  bombaLigada :: string
  timestamp :: "string option"

text \<open>
  What the code takes from the JavaScript engine and the device, and cannot be read off
  the source: \<^verbatim>\<open>Date.parse\<close> on a string (\<open>None\<close> is NaN), the conversion \<open>UTC(t)\<close> of a
  local time value to a UTC one (the time zone of the device), \<^verbatim>\<open>toLocaleTimeString\<close>,
  and the number-to-string conversion that \<^verbatim>\<open>toFixed\<close> falls back on for magnitudes of
  \<open>10^21\<close> and more.
\<close>

record js_env =
  date_parse :: "string \<Rightarrow> date"
  local_to_utc :: "int \<Rightarrow> int"
  toLocaleTimeString :: "date \<Rightarrow> string"
  number_toString :: "rat \<Rightarrow> string"

section \<open>The Date constructor (ECMA-262, Date objects)\<close>

definition msPerDay :: int where
  "msPerDay = 86400000"

definition DayFromYear :: "int \<Rightarrow> int" where
  "DayFromYear y =
     365 * (y - 1970) + (y - 1969) div 4 - (y - 1901) div 100 + (y - 1601) div 400"

definition InLeapYear :: "int \<Rightarrow> bool" where
  "InLeapYear y = (y mod 4 = 0 \<and> (y mod 100 \<noteq> 0 \<or> y mod 400 = 0))"

text \<open>The day within the year on which month \<open>m\<close> (0 is January) starts.\<close>

definition month_start :: "bool \<Rightarrow> int \<Rightarrow> int" where
  "month_start leap m =
     [0, 31, 59, 90, 120, 151, 181, 212, 243, 273, 304, 334] ! nat m
       + (if leap \<and> 2 \<le> m then 1 else 0)"

text \<open>\<open>MakeDay\<close>: months outside 0..11 carry into the year, the day of the month is an
  offset and may run over the end of the month.\<close>

definition MakeDay :: "int \<Rightarrow> int \<Rightarrow> int \<Rightarrow> int" where
  "MakeDay year month dt =
     (let ym = year + month div 12; mn = month mod 12
      in DayFromYear ym + month_start (InLeapYear ym) mn + dt - 1)"

definition MakeTime :: "int \<Rightarrow> int \<Rightarrow> int \<Rightarrow> int \<Rightarrow> int" where
  "MakeTime h m s milli = h * 3600000 + m * 60000 + s * 1000 + milli"

definition MakeDate :: "int \<Rightarrow> int \<Rightarrow> int" where
  "MakeDate day time = day * msPerDay + time"

definition TimeClip :: "int \<Rightarrow> date" where
  "TimeClip t = (if 8640000000000000 < \<bar>t\<bar> then None else Some t)"

text \<open>\<^verbatim>\<open>new Date(year, month, date, hours, minutes, seconds)\<close>: a year from 0 to 99 means
  1900 + year; the fields are local time.\<close>

definition Date_fields :: "js_env \<Rightarrow> int \<Rightarrow> int \<Rightarrow> int \<Rightarrow> int \<Rightarrow> int \<Rightarrow> int \<Rightarrow> date" where
  "Date_fields env y m dt h mi s =
     (let yr = (if 0 \<le> y \<and> y \<le> 99 then 1900 + y else y)
      in TimeClip (local_to_utc env (MakeDate (MakeDay yr m dt) (MakeTime h mi s 0))))"

text \<open>\<^verbatim>\<open>new Date(v)\<close> for a number: the time value is the number truncated towards zero,
  invalid outside the range of time values.\<close>

definition Date_number :: "rat \<Rightarrow> date" where
  "Date_number n =
     (if 8640000000000000 < \<bar>n\<bar> then None
      else Some (if 0 \<le> n then \<lfloor>n\<rfloor> else \<lceil>n\<rceil>))"

section \<open>parseTimestamp\<close>

text \<open>
  The regular expression
  \<^verbatim>\<open>/(\d{2})\/(\d{2})\/(\d{4})\s(\d{2}):(\d{2}):(\d{2})/\<close>
  is a sequence of 19 atoms, each matching one code unit.
\<close>

datatype atom = Digit | Slash | Space | Colon

definition is_digit :: "char \<Rightarrow> bool" where
  "is_digit c = (48 \<le> (of_char c :: nat) \<and> (of_char c :: nat) \<le> 57)"

text \<open>\<^verbatim>\<open>\s\<close> on code units below 256: tab, line feed, vertical tab, form feed, carriage
  return, space and the no-break space.\<close>

definition is_space :: "char \<Rightarrow> bool" where
  "is_space c = ((of_char c :: nat) \<in> {9, 10, 11, 12, 13, 32, 160})"

fun atom_matches :: "atom \<Rightarrow> char \<Rightarrow> bool" where
  "atom_matches Digit c = is_digit c"
| "atom_matches Slash c = (c = CHR ''/'')"
| "atom_matches Space c = is_space c"
| "atom_matches Colon c = (c = CHR '':'')"

definition ts_pattern :: "atom list" where
  "ts_pattern =
     [Digit, Digit, Slash, Digit, Digit, Slash, Digit, Digit, Digit, Digit, Space,
      Digit, Digit, Colon, Digit, Digit, Colon, Digit, Digit]"

text \<open>The pattern matches at the start of \<open>s\<close>.\<close>

definition match_at :: "string \<Rightarrow> bool" where
  "match_at s = (length ts_pattern \<le> length s
     \<and> list_all2 atom_matches ts_pattern (take (length ts_pattern) s))"

text \<open>\<^verbatim>\<open>timestamp.match(re)\<close> without the global flag: the leftmost match, or null.\<close>

fun regex_match :: "string \<Rightarrow> string option" where
  "regex_match s =
     (if match_at s then Some (take (length ts_pattern) s)
      else (case s of [] \<Rightarrow> None | _ # t \<Rightarrow> regex_match t))"

declare regex_match.simps [simp del]

text \<open>The capture groups \<open>parts[1]\<close> .. \<open>parts[6]\<close> of a match, by position.\<close>

definition parts :: "string \<Rightarrow> nat \<Rightarrow> string" where
  "parts m i =
     (if i = 1 then take 2 m
      else if i = 2 then take 2 (drop 3 m)
      else if i = 3 then take 4 (drop 6 m)
      else if i = 4 then take 2 (drop 11 m)
      else if i = 5 then take 2 (drop 14 m)
      else take 2 (drop 17 m))"

text \<open>\<open>ToNumber\<close> of a string of decimal digits.\<close>

definition digit_val :: "char \<Rightarrow> int" where
  "digit_val c = int (of_char c) - 48"

definition ToNumber :: "string \<Rightarrow> int" where
  "ToNumber ds = foldl (\<lambda>acc c. 10 * acc + digit_val c) 0 ds"

text \<open>\<^verbatim>\<open>new Date("invalid")\<close>: whatever the engine's parser makes of the word.\<close>

definition invalidDate :: "js_env \<Rightarrow> date" where
  "invalidDate env = date_parse env ''invalid''"

text \<open>Lines 11 to 18 of the source, for a receiver that is a non-empty string.\<close>

definition parseString :: "js_env \<Rightarrow> string \<Rightarrow> date" where
  "parseString env s =
     (case date_parse env s of
        Some t \<Rightarrow> Some t
      | None \<Rightarrow>
         (case regex_match s of
            Some m \<Rightarrow>
              (case Date_fields env (ToNumber (parts m 3)) (ToNumber (parts m 2) - 1)
                      (ToNumber (parts m 1)) (ToNumber (parts m 4)) (ToNumber (parts m 5))
                      (ToNumber (parts m 6)) of
                 Some t \<Rightarrow> Some t
               | None \<Rightarrow> invalidDate env)
          | None \<Rightarrow> invalidDate env))"

text \<open>
  \<^verbatim>\<open>parseTimestamp\<close> on any primitive. Falsy values (undefined, null, false, 0, the empty
  string) return at line 10. A true boolean or a number in range is a valid date at
  line 12. A number out of range reaches \<^verbatim>\<open>timestamp.match\<close>, which a number does not
  have: a TypeError.
\<close>

fun parseTimestamp :: "js_env \<Rightarrow> jsval \<Rightarrow> js_error + date" where
  "parseTimestamp env JUndefined = Inr (invalidDate env)"
| "parseTimestamp env JNull = Inr (invalidDate env)"
| "parseTimestamp env (JBool b) = (if \<not> b then Inr (invalidDate env) else Inr (Some 1))"
| "parseTimestamp env (JNum n) =
     (if n = 0 then Inr (invalidDate env)
      else (case Date_number n of Some t \<Rightarrow> Inr (Some t) | None \<Rightarrow> Inl TypeError))"
| "parseTimestamp env (JStr s) =
     (if s = [] then Inr (invalidDate env) else Inr (parseString env s))"

text \<open>The timestamp field of a reading as the value the code reads.\<close>

definition timestamp_val :: "reading \<Rightarrow> jsval" where
  "timestamp_val r = (case timestamp r of None \<Rightarrow> JUndefined | Some s \<Rightarrow> JStr s)"

text \<open>The normalized instant of a reading: \<^verbatim>\<open>parseTimestamp(r.timestamp)\<close>.\<close>

definition instant :: "js_env \<Rightarrow> reading \<Rightarrow> js_error + date" where
  "instant env r = parseTimestamp env (timestamp_val r)"

text \<open>An engine for examples: its \<^verbatim>\<open>Date.parse\<close> accepts a single string, in the ISO
  format, and none of the others used here; the device is in the UTC zone; times print as
  the half of the day.\<close>

definition sample_env :: js_env where
  "sample_env = \<lparr> date_parse = (\<lambda>s. if s = ''2024-12-25T14:30:00.000Z''
                                      then Some 1735137000000 else None),
     local_to_utc = (\<lambda>t. t),
     toLocaleTimeString = (\<lambda>d. case d of None \<Rightarrow> ''Invalid Date''
                                 | Some t \<Rightarrow> (if t mod 86400000 < 43200000 then ''AM'' else ''PM'')),
     number_toString = (\<lambda>x. ''1e+21'') \<rparr>"

section \<open>The derived values\<close>

subsection \<open>latestReading\<close>

text \<open>\<^verbatim>\<open>Array.prototype.reduce\<close> without an initial value on a non-empty array: the first
  element seeds the accumulator; an exception of the callback ends the fold.\<close>

fun reduce_err :: "('a \<Rightarrow> 'a \<Rightarrow> js_error + 'a) \<Rightarrow> 'a \<Rightarrow> 'a list \<Rightarrow> js_error + 'a" where
  "reduce_err f acc [] = Inr acc"
| "reduce_err f acc (x # xs) =
     (case f acc x of Inl e \<Rightarrow> Inl e | Inr acc' \<Rightarrow> reduce_err f acc' xs)"

text \<open>The callback of lines 56 to 62.\<close>

definition later :: "js_env \<Rightarrow> reading \<Rightarrow> reading \<Rightarrow> js_error + reading" where
  "later env latest current =
     (case instant env latest of
        Inl e \<Rightarrow> Inl e
      | Inr latestDate \<Rightarrow>
         (case instant env current of
            Inl e \<Rightarrow> Inl e
          | Inr currentDate \<Rightarrow>
             (case latestDate of
                None \<Rightarrow> Inr current
              | Some tlat \<Rightarrow>
                 (case currentDate of
                    None \<Rightarrow> Inr latest
                  | Some tcur \<Rightarrow> Inr (if tcur > tlat then current else latest)))))"

text \<open>\<open>None\<close> is \<^verbatim>\<open>null\<close>.\<close>

definition latestReading :: "js_env \<Rightarrow> reading list \<Rightarrow> js_error + reading option" where
  "latestReading env leituras =
     (case leituras of
        [] \<Rightarrow> Inr None
      | first # rest \<Rightarrow>
         (case reduce_err (later env) first rest of
            Inl e \<Rightarrow> Inl e
          | Inr r \<Rightarrow> Inr (Some r)))"

subsection \<open>averageReading\<close>

text \<open>
  The value of a number expression: a finite double, given by the rational it denotes, an
  infinity or NaN. The sign of a zero is not kept: nothing below tells \<open>-0\<close> from \<open>+0\<close>
  (\<^verbatim>\<open>toFixed\<close> prints both without a sign).
\<close>

datatype number = Finite rat | PosInfinity | NegInfinity | NaN

definition pow2 :: "int \<Rightarrow> rat" where
  "pow2 e = (if 0 \<le> e then 2 ^ nat e else 1 / 2 ^ nat (- e))"

text \<open>The \<open>e\<close> with \<open>2^e \<le> \<bar>x\<bar> < 2^(e+1)\<close>, for \<open>x \<noteq> 0\<close>: the difference of the bit lengths
  of numerator and denominator, or one less.\<close>

definition floor_log2 :: "rat \<Rightarrow> int" where
  "floor_log2 x =
     (let (p, q) = quotient_of \<bar>x\<bar>; d = bitlen p - bitlen q
      in if pow2 d \<le> \<bar>x\<bar> then d else d - 1)"

text \<open>The nearest integer, the even one of two equally near.\<close>

definition round_even :: "rat \<Rightarrow> int" where
  "round_even y =
     (let f = \<lfloor>y\<rfloor>; d = y - of_int f
      in if d < 1 / 2 then f else if 1 / 2 < d then f + 1 else if even f then f else f + 1)"

text \<open>\<open>2^1024\<close>: a result that rounds to this magnitude or more overflows.\<close>

definition overflow_threshold :: rat where
  "overflow_threshold = 179769313486231590772930519078902473361797697894230657273430081157732675805500963132708477322407536021120113879871393357658789768814416622492847430639474124377767893424865485276302219601246094119453082952085005768838150682342462881473913110540827237163350510684586298239947245938479716304835356329624224137216"

text \<open>
  The rounding of IEEE 754 binary64 arithmetic, round to nearest with ties to even: a
  double is a multiple of \<open>2^(e - 52)\<close> where \<open>2^e\<close> is the power of two at or below its
  magnitude, and \<open>e\<close> is at least \<open>-1022\<close> (below that the doubles are the multiples of
  \<open>2^(-1074)\<close>).
\<close>

definition fround :: "rat \<Rightarrow> number" where
  "fround x =
     (if x = 0 then Finite 0
      else
        (let e = max (floor_log2 x) (- 1022);
             q = pow2 (e - 52);
             r = of_int (round_even (x / q)) * q
         in if overflow_threshold \<le> \<bar>r\<bar> then (if x < 0 then NegInfinity else PosInfinity)
            else Finite r))"

text \<open>\<^verbatim>\<open>x + y\<close> on numbers.\<close>

fun fadd :: "number \<Rightarrow> number \<Rightarrow> number" where
  "fadd (Finite a) (Finite b) = fround (a + b)"
| "fadd NaN y = NaN"
| "fadd x NaN = NaN"
| "fadd PosInfinity NegInfinity = NaN"
| "fadd NegInfinity PosInfinity = NaN"
| "fadd PosInfinity y = PosInfinity"
| "fadd NegInfinity y = NegInfinity"
| "fadd x PosInfinity = PosInfinity"
| "fadd x NegInfinity = NegInfinity"

text \<open>\<^verbatim>\<open>x / n\<close> for the length \<open>n\<close> of an array (a zero divisor is \<open>+0\<close>).\<close>

fun fdiv_length :: "number \<Rightarrow> nat \<Rightarrow> number" where
  "fdiv_length (Finite a) n =
     (if n = 0 then (if a = 0 then NaN else if 0 < a then PosInfinity else NegInfinity)
      else fround (a / of_nat n))"
| "fdiv_length PosInfinity n = PosInfinity"
| "fdiv_length NegInfinity n = NegInfinity"
| "fdiv_length NaN n = NaN"

definition digit_char :: "nat \<Rightarrow> char" where
  "digit_char d = char_of (48 + d)"

text \<open>The decimal digits of an integer that is not negative, no leading zeros (\<open>0\<close> is
  \<^verbatim>\<open>"0"\<close>).\<close>

function digits :: "int \<Rightarrow> string" where
  "digits n =
     (if n < 10 then [digit_char (nat n)]
      else digits (n div 10) @ [digit_char (nat (n mod 10))])"
  by pat_completeness auto
termination
  by (relation "measure nat") auto

declare digits.simps [simp del]

text \<open>
  \<^verbatim>\<open>Number.prototype.toFixed(f)\<close> (ECMA-262). A number that is not finite prints as its
  name. On a finite number the sign is split off; from \<open>10^21\<close> on the result is the
  engine's number-to-string conversion; below, \<open>n\<close> is the integer with \<open>n / 10^f\<close> nearest
  to the exact value of the double (the larger one of two), its digits are padded with
  zeros to at least \<open>f + 1\<close> and the point goes before the last \<open>f\<close>.
\<close>

fun toFixed :: "js_env \<Rightarrow> nat \<Rightarrow> number \<Rightarrow> string" where
  "toFixed env f NaN = ''NaN''"
| "toFixed env f PosInfinity = ''Infinity''"
| "toFixed env f NegInfinity = ''-Infinity''"
| "toFixed env f (Finite x) =
     (let s = (if x < 0 then ''-'' else ''''); a = \<bar>x\<bar>
      in if 10 ^ 21 \<le> a then s @ number_toString env a
         else
           (let n = \<lfloor>a * 10 ^ f + 1 / 2\<rfloor>;
                m = digits n;
                z = replicate (f + 1 - length m) CHR ''0'' @ m;
                k = length z
            in if f \<noteq> 0 then s @ take (k - f) z @ ''.'' @ drop (k - f) z else s @ m))"

text \<open>Line 68: the sum from \<open>0\<close>, left to right, each addition rounded; the division by
  the length, rounded; \<^verbatim>\<open>toFixed(2)\<close>. The \<^verbatim>\<open>leitura\<close> of a reading is a finite double.\<close>

definition averageReading :: "js_env \<Rightarrow> reading list \<Rightarrow> string" where
  "averageReading env leituras =
     (if leituras = [] then ''N/A''
      else toFixed env 2
             (fdiv_length (foldl (\<lambda>acc curr. fadd acc (Finite (leitura curr))) (Finite 0) leituras)
                (length leituras)))"

subsection \<open>pumpStatus\<close>

definition pumpStatus :: "js_env \<Rightarrow> reading list \<Rightarrow> js_error + string" where
  "pumpStatus env leituras =
     (case latestReading env leituras of
        Inl e \<Rightarrow> Inl e
      | Inr l \<Rightarrow>
         Inr (if (case l of None \<Rightarrow> False | Some r \<Rightarrow> bombaLigada r = ''Sim'')
              then ''Ativa'' else ''Inativa''))"

subsection \<open>chartData\<close>

text \<open>\<^verbatim>\<open>xs.slice(-n)\<close>: from index \<open>max (length xs - n) 0\<close> to the end.\<close>

definition slice_last :: "nat \<Rightarrow> 'a list \<Rightarrow> 'a list" where
  "slice_last n xs = drop (length xs - n) xs"

text \<open>\<^verbatim>\<open>Array.prototype.map\<close> with a callback that may throw.\<close>

fun map_err :: "('a \<Rightarrow> js_error + 'b) \<Rightarrow> 'a list \<Rightarrow> js_error + 'b list" where
  "map_err f [] = Inr []"
| "map_err f (x # xs) =
     (case f x of
        Inl e \<Rightarrow> Inl e
      | Inr y \<Rightarrow> (case map_err f xs of Inl e \<Rightarrow> Inl e | Inr ys \<Rightarrow> Inr (y # ys)))"

record chart =
  labels :: "string list"
  data :: "rat list"

definition chartData :: "js_env \<Rightarrow> reading list \<Rightarrow> js_error + chart" where
  "chartData env leituras =
     (case map_err (\<lambda>dado. case instant env dado of
                              Inl e \<Rightarrow> Inl e
                            | Inr d \<Rightarrow> Inr (toLocaleTimeString env d))
             (slice_last 6 leituras) of
        Inl e \<Rightarrow> Inl e
      | Inr ls \<Rightarrow> Inr \<lparr> labels = ls, data = map leitura (slice_last 6 leituras) \<rparr>)"

subsection \<open>The history list\<close>

text \<open>The comparator \<^verbatim>\<open>(a, b) => parseTimestamp(b.timestamp) - parseTimestamp(a.timestamp)\<close>:
  the difference of the time values, NaN (\<open>None\<close>) as soon as one of them is NaN.\<close>

definition compare_desc :: "js_env \<Rightarrow> reading \<Rightarrow> reading \<Rightarrow> js_error + int option" where
  "compare_desc env a b =
     (case instant env b of
        Inl e \<Rightarrow> Inl e
      | Inr db \<Rightarrow>
         (case instant env a of
            Inl e \<Rightarrow> Inl e
          | Inr da \<Rightarrow>
             Inr (case db of
                    None \<Rightarrow> None
                  | Some tb \<Rightarrow> (case da of None \<Rightarrow> None | Some ta \<Rightarrow> Some (tb - ta)))))"

text \<open>
  \<^verbatim>\<open>Array.prototype.sort\<close> with a comparator (ECMA-262, SortIndexedProperties). The
  elements are compared through \<open>SortCompare\<close>, which reads a NaN result of the comparator
  as \<open>+0\<close>.
\<close>

definition SortCompare :: "js_env \<Rightarrow> reading \<Rightarrow> reading \<Rightarrow> js_error + int" where
  "SortCompare env x y =
     (case compare_desc env x y of
        Inl e \<Rightarrow> Inl e
      | Inr None \<Rightarrow> Inr 0
      | Inr (Some v) \<Rightarrow> Inr v)"

text \<open>\<open>x <\<^sub>C y\<close>, \<open>x =\<^sub>C y\<close> and \<open>x >\<^sub>C y\<close>: the comparison is negative, zero, positive.\<close>

definition ltC :: "js_env \<Rightarrow> reading \<Rightarrow> reading \<Rightarrow> bool" where
  "ltC env x y = (case SortCompare env x y of Inl e \<Rightarrow> False | Inr v \<Rightarrow> v < 0)"

definition eqC :: "js_env \<Rightarrow> reading \<Rightarrow> reading \<Rightarrow> bool" where
  "eqC env x y = (case SortCompare env x y of Inl e \<Rightarrow> False | Inr v \<Rightarrow> v = 0)"

definition gtC :: "js_env \<Rightarrow> reading \<Rightarrow> reading \<Rightarrow> bool" where
  "gtC env x y = (case SortCompare env x y of Inl e \<Rightarrow> False | Inr v \<Rightarrow> 0 < v)"

text \<open>
  The comparison is a consistent comparator for the elements of a list: on all \<open>a\<close>, \<open>b\<close>,
  \<open>c\<close> of the list it returns a number, \<open>a =\<^sub>C a\<close>, \<open>=\<^sub>C\<close> is symmetric and transitive, and
  \<open><\<^sub>C\<close> and \<open>>\<^sub>C\<close> are transitive.
\<close>

definition consistent_at :: "js_env \<Rightarrow> reading \<Rightarrow> reading \<Rightarrow> reading \<Rightarrow> bool" where
  "consistent_at env a b c =
     ((ltC env a b \<or> eqC env a b \<or> gtC env a b)
      \<and> eqC env a a
      \<and> (if eqC env a b then eqC env b a else True)
      \<and> (if eqC env a b \<and> eqC env b c then eqC env a c else True)
      \<and> (if ltC env a b \<and> ltC env b c then ltC env a c else True)
      \<and> (if gtC env a b \<and> gtC env b c then gtC env a c else True))"

definition consistent_comparator :: "js_env \<Rightarrow> reading list \<Rightarrow> bool" where
  "consistent_comparator env xs =
     list_all (\<lambda>a. list_all (\<lambda>b. list_all (\<lambda>c. consistent_at env a b c) xs) xs) xs"

text \<open>
  The order that the sort must produce when the comparison is consistent: a
  rearrangement of the elements in which no element stands behind one that it precedes
  in the comparison, and in which elements that compare equal keep the order they had
  (the sort is stable).
\<close>

definition sort_order :: "js_env \<Rightarrow> reading list \<Rightarrow> reading list \<Rightarrow> bool" where
  "sort_order env xs ys =
     (mset ys = mset xs
      \<and> sorted_wrt (\<lambda>a b. \<not> ltC env b a) ys
      \<and> list_all (\<lambda>a. filter (eqC env a) ys = filter (eqC env a) xs) xs)"

text \<open>
  The \<^verbatim>\<open>data\<close> of the history list, a sorted copy of the readings:
  \<open>history env leituras res\<close> holds when \<open>res\<close> is a value that the expression of lines 135
  to 137 can have. With a consistent comparison it is the list in sort order. Otherwise
  the order is left to the engine: any rearrangement of the readings, or an exception that
  the comparator throws on two of them.
\<close>

definition history :: "js_env \<Rightarrow> reading list \<Rightarrow> js_error + reading list \<Rightarrow> bool" where
  "history env leituras res =
     (if consistent_comparator env leituras
      then (case res of Inl e \<Rightarrow> False | Inr ys \<Rightarrow> sort_order env leituras ys)
      else (case res of
              Inl e \<Rightarrow> list_ex (\<lambda>a. list_ex (\<lambda>b. compare_desc env a b = Inl e) leituras) leituras
            | Inr ys \<Rightarrow> mset ys = mset leituras))"

section \<open>fetchData\<close>

record app_state =
  leituras :: "reading list"
  loading :: bool
  initialLoading :: bool
  error :: "string option"
  lastRefresh :: int

text \<open>What a request can come back with: no response at all, or a response with its
  \<^verbatim>\<open>ok\<close> flag and its body (not JSON, a JSON value that is not an array, an array).\<close>

datatype body = NotJson | NonArray | Array "reading list"

datatype outcome = NoResponse | Response bool body

text \<open>The first two links of the promise chain, up to the value passed on as \<^verbatim>\<open>data\<close>:
  a rejected fetch, the throw of line 32 and a rejected \<^verbatim>\<open>response.json()\<close> are errors.\<close>

fun received :: "outcome \<Rightarrow> js_error + body" where
  "received NoResponse = Inl NetworkFailure"
| "received (Response ok b) =
     (if \<not> ok then Inl ConnectionFailed
      else (case b of NotJson \<Rightarrow> Inl SyntaxError | _ \<Rightarrow> Inr b))"

text \<open>\<^verbatim>\<open>Array.isArray(data) ? data : []\<close>\<close>

fun array_or_empty :: "body \<Rightarrow> reading list" where
  "array_or_empty (Array rs) = rs"
| "array_or_empty _ = []"

text \<open>Line 29, before the request is sent.\<close>

definition fetch_started :: "app_state \<Rightarrow> app_state" where
  "fetch_started s = s\<lparr>loading := True\<rparr>"

text \<open>Lines 35 to 44, when the request has settled at time \<open>now\<close>: the second
  \<^verbatim>\<open>then\<close> or the \<^verbatim>\<open>catch\<close>, followed by the \<^verbatim>\<open>finally\<close>.\<close>

definition fetch_settled :: "int \<Rightarrow> outcome \<Rightarrow> app_state \<Rightarrow> app_state" where
  "fetch_settled now oc s =
     (let s' = (case received oc of
                  Inr d \<Rightarrow> s\<lparr>leituras := array_or_empty d, lastRefresh := now, error := None\<rparr>
                | Inl e \<Rightarrow> s\<lparr>error := Some ''Falha ao carregar os dados.''\<rparr>)
      in s'\<lparr>loading := False, initialLoading := False\<rparr>)"

definition fetchData :: "int \<Rightarrow> outcome \<Rightarrow> app_state \<Rightarrow> app_state" where
  "fetchData now oc s = fetch_settled now oc (fetch_started s)"

section \<open>Sample data\<close>

text \<open>Readings used to run the definitions on concrete input.\<close>

definition r_xmas :: reading where
  "r_xmas = \<lparr> reading_id = 1, leitura = 2, status = ''OK'', bombaLigada = ''Sim'',
               timestamp = Some ''25/12/2024 14:30:00'' \<rparr>"

definition r_boxing :: reading where
  "r_boxing = \<lparr> reading_id = 2, leitura = 4, status = ''OK'', bombaLigada = ''Nao'',
               timestamp = Some ''26/12/2024 08:00:00'' \<rparr>"

definition r_garbled :: reading where
  "r_garbled = \<lparr> reading_id = 3, leitura = 5, status = ''OK'', bombaLigada = ''Sim'',
               timestamp = Some ''not-a-date'' \<rparr>"

definition r_absent :: reading where
  "r_absent = \<lparr> reading_id = 4, leitura = 7, status = ''OK'', bombaLigada = ''Nao'',
               timestamp = None \<rparr>"

text \<open>Two readings whose \<^verbatim>\<open>leitura\<close> are the doubles nearest to 8.87 and 17.28.\<close>

definition r_low :: reading where
  "r_low = \<lparr> reading_id = 5, leitura = 4993366086847037 / 562949953421312, status = ''OK'',
              bombaLigada = ''Nao'', timestamp = None \<rparr>"

definition r_high :: reading where
  "r_high = \<lparr> reading_id = 6, leitura = 607985949695017 / 35184372088832, status = ''OK'',
              bombaLigada = ''Nao'', timestamp = None \<rparr>"

section \<open>Vocabulary of the properties\<close>

text \<open>The instant of a reading as a plain value: its timestamp is absent or a string.\<close>

definition instant_val :: "js_env \<Rightarrow> reading \<Rightarrow> date" where
  "instant_val env r =
     (case timestamp r of
        None \<Rightarrow> invalidDate env
      | Some s \<Rightarrow> if s = [] then invalidDate env else parseString env s)"

text \<open>
  \<open>a\<close> may stand before \<open>b\<close> in a list that is non-increasing by normalized instant,
  an invalid instant counting as smaller than every valid one.
\<close>

definition not_before :: "js_env \<Rightarrow> reading \<Rightarrow> reading \<Rightarrow> bool" where
  "not_before env a b =
     (case instant env b of
        Inl e \<Rightarrow> False
      | Inr None \<Rightarrow> True
      | Inr (Some tb) \<Rightarrow>
         (case instant env a of Inr (Some ta) \<Rightarrow> tb \<le> ta | _ \<Rightarrow> False))"

text \<open>
  A stable insertion sort by the comparison: \<open>x\<close> goes behind \<open>y\<close> exactly when the
  comparison of \<open>x\<close> with \<open>y\<close> is positive. It is not the engine's algorithm; it serves to
  show that a list in sort order exists when all instants are valid.
\<close>

fun insertion_step :: "js_env \<Rightarrow> reading \<Rightarrow> reading list \<Rightarrow> reading list" where
  "insertion_step env x [] = [x]"
| "insertion_step env x (y # ys) = (if gtC env x y then y # insertion_step env x ys else x # y # ys)"

fun insertion_sort :: "js_env \<Rightarrow> reading list \<Rightarrow> reading list" where
  "insertion_sort env [] = []"
| "insertion_sort env (x # xs) = insertion_step env x (insertion_sort env xs)"

text \<open>The arithmetic mean of the \<^verbatim>\<open>leitura\<close> fields.\<close>

definition mean :: "reading list \<Rightarrow> rat" where
  "mean ls = sum_list (map leitura ls) / of_nat (length ls)"

text \<open>The mean as line 68 computes it.\<close>

definition double_mean :: "reading list \<Rightarrow> number" where
  "double_mean ls =
     fdiv_length (foldl (\<lambda>acc curr. fadd acc (Finite (leitura curr))) (Finite 0) ls) (length ls)"

text \<open>A rational that is a double: rounding leaves it as it is.\<close>

definition is_double :: "rat \<Rightarrow> bool" where
  "is_double x = (fround x = Finite x)"

text \<open>No addition and no division of line 68 rounds: the sum of every initial part of
  the list is a double, and so is the mean.\<close>

definition exact_operations :: "reading list \<Rightarrow> bool" where
  "exact_operations ls =
     (list_all (\<lambda>k. is_double (sum_list (map leitura (take k ls)))) [0..<Suc (length ls)]
      \<and> is_double (mean ls))"

text \<open>A number rounded to 2 decimal places: the nearest multiple of \<open>1/100\<close>, the one
  of greater magnitude when two are equally near.\<close>

definition round2 :: "rat \<Rightarrow> rat" where
  "round2 x = (if x < 0 then - 1 else 1) * of_int \<lfloor>\<bar>x\<bar> * 100 + 1 / 2\<rfloor> / 100"

text \<open>
  The number that a string in fixed notation with two decimals denotes: an optional minus
  sign, at least one digit, a point, two digits. \<open>None\<close> for any other string.
\<close>

definition read_fixed2 :: "string \<Rightarrow> rat option" where
  "read_fixed2 s =
     (let neg = (s \<noteq> [] \<and> hd s = CHR ''-'');
          body = (if neg then tl s else s);
          ip = takeWhile is_digit body;
          rest = dropWhile is_digit body
      in if ip \<noteq> [] \<and> length rest = 3 \<and> hd rest = CHR ''.'' \<and> list_all is_digit (tl rest)
         then Some ((if neg then - 1 else 1)
                * (of_int (ToNumber ip) + of_int (ToNumber (tl rest)) / 100))
         else None)"

text \<open>The state of the component before the first request (lines 22 to 26), mounted at
  time 0.\<close>

definition initial_state :: app_state where
  "initial_state = \<lparr>leituras = [], loading = False, initialLoading = True,
     error = None, lastRefresh = 0\<rparr>"

text \<open>
  The text \<^verbatim>\<open>DD/MM/YYYY HH:MM:SS\<close> of a day \<open>D\<close>, month \<open>M\<close>, year \<open>Y\<close>, hour \<open>h\<close>,
  minute \<open>mi\<close> and second \<open>se\<close>, with \<open>w\<close> between date and time.
\<close>

definition two_digits :: "nat \<Rightarrow> string" where
  "two_digits n = [digit_char (n div 10), digit_char (n mod 10)]"

definition four_digits :: "nat \<Rightarrow> string" where
  "four_digits n =
     [digit_char (n div 1000), digit_char (n div 100 mod 10),
      digit_char (n div 10 mod 10), digit_char (n mod 10)]"

definition ts_text :: "nat \<Rightarrow> nat \<Rightarrow> nat \<Rightarrow> char \<Rightarrow> nat \<Rightarrow> nat \<Rightarrow> nat \<Rightarrow> string" where
  "ts_text D M Y w h mi se =
     two_digits D @ ''/'' @ two_digits M @ ''/'' @ four_digits Y @ [w]
       @ two_digits h @ '':'' @ two_digits mi @ '':'' @ two_digits se"


section \<open>Readings never make parseTimestamp throw\<close>

lemma instant_returns: "instant env r = Inr (instant_val env r)"
  by (simp add: instant_def instant_val_def timestamp_val_def split: option.splits)

lemma instant_r_xmas: "instant sample_env r_xmas = Inr (Some 1735137000000)"
  by code_simp


lemma instant_r_garbled: "instant sample_env r_garbled = Inr None"
  by code_simp

lemma instant_r_absent: "instant sample_env r_absent = Inr None"
  by code_simp

section \<open>latestReading\<close>


lemma later_invalid: "instant env l = Inr None \<Longrightarrow> later env l c = Inr c"
  by (simp add: later_def instant_returns)

lemma reduce_all_invalid:
  "\<forall>r\<in>set (a # xs). instant env r = Inr None \<Longrightarrow>
   reduce_err (later env) a xs = Inr (last (a # xs))"
  by (induction xs arbitrary: a) (simp_all add: later_invalid)

text \<open>
  C1 as stated fails: with the instants of both readings invalid, the fold returns the
  second reading, not the first.
\<close>

theorem latestReading_all_invalid_first_counterexample:
  "instant sample_env r_garbled = Inr None \<and> instant sample_env r_absent = Inr None
   \<and> latestReading sample_env [r_garbled, r_absent] = Inr (Some r_absent)
   \<and> latestReading sample_env [r_garbled, r_absent] \<noteq> Inr (Some (hd [r_garbled, r_absent]))"
  by code_simp

text \<open>
  C1, amended: for every non-empty list of readings whose normalized instants are all
  invalid, \<^verbatim>\<open>latestReading\<close> returns the last element of the list: an accumulator with an
  invalid instant is replaced by every candidate.
\<close>

theorem latestReading_all_invalid:
  "ls \<noteq> [] \<Longrightarrow> \<forall>r\<in>set ls. instant env r = Inr None \<Longrightarrow>
   latestReading env ls = Inr (Some (last ls))"
  using reduce_all_invalid[of "hd ls" "tl ls" env]
  by (cases ls) (simp_all add: latestReading_def)

theorem latestReading_all_invalid_witness:
  "[r_garbled, r_absent, r_garbled] \<noteq> []
   \<and> instant sample_env r_garbled = Inr None \<and> instant sample_env r_absent = Inr None
   \<and> latestReading sample_env [r_garbled, r_absent, r_garbled]
       = Inr (Some (last [r_garbled, r_absent, r_garbled]))"
  using latestReading_all_invalid[of "[r_garbled, r_absent, r_garbled]" sample_env]
  by (simp add: instant_r_garbled instant_r_absent)







section \<open>The history list\<close>

lemma SortCompare_valid:
  "instant env a = Inr (Some ta) \<Longrightarrow> instant env b = Inr (Some tb) \<Longrightarrow>
   SortCompare env a b = Inr (tb - ta)"
  by (simp add: SortCompare_def compare_desc_def)

lemma not_before_valid:
  "instant env a = Inr (Some ta) \<Longrightarrow> instant env b = Inr (Some tb) \<Longrightarrow>
   not_before env a b = (tb \<le> ta)"
  by (simp add: not_before_def)

lemma ltC_valid:
  "instant env a = Inr (Some ta) \<Longrightarrow> instant env b = Inr (Some tb) \<Longrightarrow>
   ltC env a b = (tb < ta)"
  by (simp add: ltC_def SortCompare_valid)

lemma eqC_valid:
  "instant env a = Inr (Some ta) \<Longrightarrow> instant env b = Inr (Some tb) \<Longrightarrow>
   eqC env a b = (tb = ta)"
  by (simp add: eqC_def SortCompare_valid)

lemma gtC_valid:
  "instant env a = Inr (Some ta) \<Longrightarrow> instant env b = Inr (Some tb) \<Longrightarrow>
   gtC env a b = (ta < tb)"
  by (simp add: gtC_def SortCompare_valid)

text \<open>On readings with valid instants the comparison is consistent.\<close>

lemma consistent_comparator_valid:
  assumes "\<forall>r\<in>set ls. \<exists>t. instant env r = Inr (Some t)"
  shows "consistent_comparator env ls"
proof -
  have "consistent_at env a b c" if "a \<in> set ls" "b \<in> set ls" "c \<in> set ls" for a b c
  proof -
    from assms that obtain ta tb tc where
      "instant env a = Inr (Some ta)" "instant env b = Inr (Some tb)"
      "instant env c = Inr (Some tc)" by blast
    then show ?thesis
      by (auto simp: consistent_at_def ltC_valid eqC_valid gtC_valid)
  qed
  then show ?thesis by (simp add: consistent_comparator_def list_all_iff)
qed

lemma mset_insertion_step: "mset (insertion_step env x ys) = mset (x # ys)"
  by (induction ys) simp_all

lemma mset_insertion_sort: "mset (insertion_sort env ls) = mset ls"
  by (induction ls) (simp_all add: mset_insertion_step)

lemma sorted_insertion_step:
  assumes "\<forall>r\<in>set (x # ys). \<exists>t. instant env r = Inr (Some t)"
    and "sorted_wrt (not_before env) ys"
  shows "sorted_wrt (not_before env) (insertion_step env x ys)"
  using assms
proof (induction ys)
  case Nil
  then show ?case by simp
next
  case (Cons y ys)
  from Cons.prems(1) obtain tx ty where tx: "instant env x = Inr (Some tx)"
    and ty: "instant env y = Inr (Some ty)" by auto
  have tail: "\<forall>z\<in>set ys. not_before env y z" using Cons.prems(2) by simp
  show ?case
  proof (cases "tx < ty")
    case True
    have "\<forall>r\<in>set (x # ys). \<exists>t. instant env r = Inr (Some t)" using Cons.prems(1) by simp
    moreover have "sorted_wrt (not_before env) ys" using Cons.prems(2) by simp
    ultimately have s: "sorted_wrt (not_before env) (insertion_step env x ys)" by (rule Cons.IH)
    have "set (insertion_step env x ys) = set (x # ys)"
      using mset_insertion_step[of env x ys] by (rule mset_eq_setD)
    moreover have "not_before env y x" using True not_before_valid[OF ty tx] by simp
    ultimately have "\<forall>z\<in>set (insertion_step env x ys). not_before env y z" using tail by simp
    with s show ?thesis using True gtC_valid[OF tx ty] by simp
  next
    case False
    then have xy: "not_before env x y" using not_before_valid[OF tx ty] by simp
    have "\<forall>z\<in>set ys. not_before env x z"
    proof
      fix z assume z: "z \<in> set ys"
      with Cons.prems(1) obtain tz where tz: "instant env z = Inr (Some tz)" by auto
      from tail z have "tz \<le> ty" using not_before_valid[OF ty tz] by simp
      with False show "not_before env x z" using not_before_valid[OF tx tz] by simp
    qed
    with xy Cons.prems(2) show ?thesis using False gtC_valid[OF tx ty] by simp
  qed
qed

lemma sorted_insertion_sort:
  "\<forall>r\<in>set ls. \<exists>t. instant env r = Inr (Some t) \<Longrightarrow>
   sorted_wrt (not_before env) (insertion_sort env ls)"
proof (induction ls)
  case Nil
  then show ?case by simp
next
  case (Cons x xs)
  have "set (insertion_sort env xs) = set xs" using mset_insertion_sort[of env xs] by (rule mset_eq_setD)
  with Cons.prems have "\<forall>r\<in>set (x # insertion_sort env xs). \<exists>t. instant env r = Inr (Some t)"
    by simp
  moreover have "sorted_wrt (not_before env) (insertion_sort env xs)" using Cons by simp
  ultimately show ?case using sorted_insertion_step by simp
qed

text \<open>The insertion passes no element that compares equal to the one inserted.\<close>

lemma filter_insertion_step:
  assumes "\<forall>r\<in>set (a # x # ys). \<exists>t. instant env r = Inr (Some t)"
  shows "filter (eqC env a) (insertion_step env x ys) = filter (eqC env a) (x # ys)"
  using assms
proof (induction ys)
  case Nil
  then show ?case by simp
next
  case (Cons y ys)
  from Cons.prems obtain ta tx ty where ta: "instant env a = Inr (Some ta)"
    and tx: "instant env x = Inr (Some tx)" and ty: "instant env y = Inr (Some ty)" by auto
  have ih: "filter (eqC env a) (insertion_step env x ys) = filter (eqC env a) (x # ys)"
    using Cons.prems by (intro Cons.IH) simp
  show ?case
  proof (cases "tx < ty")
    case True
    then have "\<not> (eqC env a x \<and> eqC env a y)"
      using eqC_valid[OF ta tx] eqC_valid[OF ta ty] by auto
    then show ?thesis using True gtC_valid[OF tx ty] ih by auto
  next
    case False
    then show ?thesis using gtC_valid[OF tx ty] by simp
  qed
qed

lemma filter_insertion_sort:
  assumes "\<forall>r\<in>set (a # ls). \<exists>t. instant env r = Inr (Some t)"
  shows "filter (eqC env a) (insertion_sort env ls) = filter (eqC env a) ls"
  using assms
proof (induction ls)
  case Nil
  then show ?case by simp
next
  case (Cons x xs)
  have "set (insertion_sort env xs) = set xs" using mset_insertion_sort[of env xs] by (rule mset_eq_setD)
  with Cons.prems have "\<forall>r\<in>set (a # x # insertion_sort env xs). \<exists>t. instant env r = Inr (Some t)"
    by simp
  then have "filter (eqC env a) (insertion_step env x (insertion_sort env xs))
      = filter (eqC env a) (x # insertion_sort env xs)" by (rule filter_insertion_step)
  moreover have "filter (eqC env a) (insertion_sort env xs) = filter (eqC env a) xs"
    using Cons by simp
  ultimately show ?case by simp
qed

text \<open>
  When the normalized instant of every reading is valid, the comparison is consistent,
  the history list has a value, and every value it can have is a rearrangement of the
  readings that is non-increasing by normalized instant.
\<close>

lemma history_valid_non_increasing:
  assumes "\<forall>r\<in>set ls. \<exists>t. instant env r = Inr (Some t)"
  shows "consistent_comparator env ls"
    and "history env ls (Inr (insertion_sort env ls))"
    and "history env ls res \<Longrightarrow>
         \<exists>ys. res = Inr ys \<and> mset ys = mset ls \<and> sorted_wrt (not_before env) ys
           \<and> successively (not_before env) ys"
proof -
  show c: "consistent_comparator env ls" by (rule consistent_comparator_valid[OF assms])
  have set_eq: "set (insertion_sort env ls) = set ls"
    using mset_insertion_sort[of env ls] by (rule mset_eq_setD)
  have order: "sorted_wrt (\<lambda>a b. \<not> ltC env b a) ys = sorted_wrt (not_before env) ys"
    if "set ys = set ls" for ys
  proof -
    have e: "(\<not> ltC env b a) = not_before env a b" if "a \<in> set ys" "b \<in> set ys" for a b
    proof -
      from that \<open>set ys = set ls\<close> assms obtain ta tb where
        "instant env a = Inr (Some ta)" "instant env b = Inr (Some tb)" by blast
      then show ?thesis by (auto simp: ltC_valid not_before_valid)
    qed
    show ?thesis
    proof
      assume "sorted_wrt (\<lambda>a b. \<not> ltC env b a) ys"
      then show "sorted_wrt (not_before env) ys"
        by (rule sorted_wrt_mono_rel[rotated]) (simp add: e)
    next
      assume "sorted_wrt (not_before env) ys"
      then show "sorted_wrt (\<lambda>a b. \<not> ltC env b a) ys"
        by (rule sorted_wrt_mono_rel[rotated]) (simp add: e)
    qed
  qed
  have "sort_order env ls (insertion_sort env ls)"
    unfolding sort_order_def
  proof (intro conjI)
    show "mset (insertion_sort env ls) = mset ls" by (rule mset_insertion_sort)
    show "sorted_wrt (\<lambda>a b. \<not> ltC env b a) (insertion_sort env ls)"
      using order[OF set_eq] sorted_insertion_sort[OF assms] by simp
    show "list_all (\<lambda>a. filter (eqC env a) (insertion_sort env ls) = filter (eqC env a) ls) ls"
      using assms by (auto simp: list_all_iff intro!: filter_insertion_sort)
  qed
  with c show "history env ls (Inr (insertion_sort env ls))" by (simp add: history_def)
  assume "history env ls res"
  with c obtain ys where ys: "res = Inr ys" "sort_order env ls ys"
    by (cases res) (simp_all add: history_def)
  then have m: "mset ys = mset ls" and s: "sorted_wrt (\<lambda>a b. \<not> ltC env b a) ys"
    by (simp_all add: sort_order_def)
  from m have "set ys = set ls" by (rule mset_eq_setD)
  with s have "sorted_wrt (not_before env) ys" using order by simp
  with ys(1) m show "\<exists>ys. res = Inr ys \<and> mset ys = mset ls \<and> sorted_wrt (not_before env) ys
           \<and> successively (not_before env) ys"
    using successively_if_sorted_wrt by blast
qed

lemma two_element_rearrangements:
  "mset ys = mset [a, b] \<Longrightarrow> ys = [a, b] \<or> ys = [b, a]"
proof -
  assume m: "mset ys = mset [a, b]"
  then have "length ys = 2" using mset_eq_length by fastforce
  then obtain c d where ys: "ys = [c, d]"
    by (metis (no_types, opaque_lifting) One_nat_def Suc_1 length_0_conv length_Suc_conv)
  with m have e: "{#c, d#} = {#a, b#}" by simp
  then have "c \<in># {#a, b#}" "d \<in># {#a, b#}" by (metis union_single_eq_member add_mset_commute)+
  then have cd: "c = a \<or> c = b" "d = a \<or> d = b" by auto
  have "(c = a \<and> d = b) \<or> (c = b \<and> d = a)"
  proof (cases "a = b")
    case True
    with cd show ?thesis by auto
  next
    case False
    have "count {#c, d#} a = count {#a, b#} a" "count {#c, d#} b = count {#a, b#} b"
      using e by simp_all
    with False cd show ?thesis by (auto split: if_splits)
  qed
  with ys show ?thesis by auto
qed

text \<open>
  C3 fails on the code. On the readings \<^verbatim>\<open>[r_garbled, r_xmas]\<close>, the first with an invalid
  and the second with a valid instant, the comparator returns NaN for every pair, the
  comparison is constantly zero and so consistent, and the one value of the history list
  is the input as it is: the reading with the invalid instant stands first, before the
  valid one, and the list is not non-increasing with invalid instants as the smallest.
  With a second valid reading, \<^verbatim>\<open>[r_xmas, r_garbled, r_boxing]\<close>, the comparison is not
  consistent and the order is left to the engine.
\<close>

theorem history_invalid_first:
  "instant sample_env r_garbled = Inr None
   \<and> instant sample_env r_xmas = Inr (Some 1735137000000)
   \<and> compare_desc sample_env r_garbled r_xmas = Inr None
   \<and> compare_desc sample_env r_xmas r_garbled = Inr None
   \<and> consistent_comparator sample_env [r_garbled, r_xmas]
   \<and> {res. history sample_env [r_garbled, r_xmas] res} = {Inr [r_garbled, r_xmas]}
   \<and> \<not> successively (not_before sample_env) [r_garbled, r_xmas]
   \<and> \<not> consistent_comparator sample_env [r_xmas, r_garbled, r_boxing]"
proof -
  have i: "instant sample_env r_garbled = Inr None"
    "instant sample_env r_xmas = Inr (Some 1735137000000)"
    by (rule instant_r_garbled, rule instant_r_xmas)
  have cmp: "compare_desc sample_env r_garbled r_xmas = Inr None"
    "compare_desc sample_env r_xmas r_garbled = Inr None"
    by (simp_all add: compare_desc_def i)
  have c: "consistent_comparator sample_env [r_garbled, r_xmas]" by code_simp
  have ne: "r_garbled \<noteq> r_xmas" by (simp add: r_garbled_def r_xmas_def)
  have eq: "eqC sample_env r_garbled r_garbled" "eqC sample_env r_garbled r_xmas"
    "eqC sample_env r_xmas r_garbled" "eqC sample_env r_xmas r_xmas"
    by code_simp+
  have lt: "\<not> ltC sample_env r_garbled r_garbled" "\<not> ltC sample_env r_garbled r_xmas"
    "\<not> ltC sample_env r_xmas r_garbled" "\<not> ltC sample_env r_xmas r_xmas"
    by code_simp+
  have yes: "sort_order sample_env [r_garbled, r_xmas] [r_garbled, r_xmas]"
    by (simp add: sort_order_def eq lt)
  have no: "\<not> sort_order sample_env [r_garbled, r_xmas] [r_xmas, r_garbled]"
    using ne by (simp add: sort_order_def eq)
  have "{res. history sample_env [r_garbled, r_xmas] res} = {Inr [r_garbled, r_xmas]}"
  proof (intro set_eqI iffI)
    fix res :: "js_error + reading list"
    assume "res \<in> {res. history sample_env [r_garbled, r_xmas] res}"
    with c obtain ys where ys: "res = Inr ys" "sort_order sample_env [r_garbled, r_xmas] ys"
      by (cases res) (simp_all add: history_def)
    then have "mset ys = mset [r_garbled, r_xmas]" by (simp add: sort_order_def)
    then have "ys = [r_garbled, r_xmas] \<or> ys = [r_xmas, r_garbled]"
      by (rule two_element_rearrangements)
    with ys no show "res \<in> {Inr [r_garbled, r_xmas]}" by auto
  next
    fix res :: "js_error + reading list"
    assume "res \<in> {Inr [r_garbled, r_xmas]}"
    then show "res \<in> {res. history sample_env [r_garbled, r_xmas] res}"
      using c yes by (simp add: history_def)
  qed
  moreover have "\<not> successively (not_before sample_env) [r_garbled, r_xmas]"
    by (simp add: not_before_def i)
  moreover have "\<not> consistent_comparator sample_env [r_xmas, r_garbled, r_boxing]"
    by code_simp
  ultimately show ?thesis using i cmp c by simp
qed

section \<open>averageReading\<close>

lemma is_digit_digit_char: "d < 10 \<Longrightarrow> is_digit (digit_char d)"
  by (simp add: is_digit_def digit_char_def)

lemma digit_val_digit_char: "d < 10 \<Longrightarrow> digit_val (digit_char d) = int d"
  by (simp add: digit_val_def digit_char_def)

lemma digits_all_digit: "0 \<le> n \<Longrightarrow> list_all is_digit (digits n)"
proof (induction n rule: digits.induct)
  case (1 n)
  show ?case
  proof (cases "n < 10")
    case True
    with "1.prems" show ?thesis by (simp add: digits.simps[of n] is_digit_digit_char)
  next
    case False
    then have "nat (n mod 10) < 10" "0 \<le> n div 10" by simp_all
    with False 1 show ?thesis by (simp add: digits.simps[of n] is_digit_digit_char)
  qed
qed

lemma ToNumber_snoc: "ToNumber (xs @ [c]) = 10 * ToNumber xs + digit_val c"
  by (simp add: ToNumber_def)

lemma ToNumber_append:
  "ToNumber (xs @ ys) = ToNumber xs * 10 ^ length ys + ToNumber ys"
proof (induction ys rule: rev_induct)
  case Nil
  then show ?case by (simp add: ToNumber_def)
next
  case (snoc y ys)
  have "ToNumber (xs @ ys @ [y]) = 10 * ToNumber (xs @ ys) + digit_val y"
    using ToNumber_snoc[of "xs @ ys" y] by simp
  then show ?case using snoc by (simp add: ToNumber_snoc algebra_simps)
qed

lemma ToNumber_digits: "0 \<le> n \<Longrightarrow> ToNumber (digits n) = n"
proof (induction n rule: digits.induct)
  case (1 n)
  show ?case
  proof (cases "n < 10")
    case True
    with "1.prems" show ?thesis
      by (simp add: digits.simps[of n] ToNumber_def digit_val_digit_char)
  next
    case False
    then have m: "nat (n mod 10) < 10" "0 \<le> n div 10" by simp_all
    with False 1 have "ToNumber (digits n) = 10 * (n div 10) + n mod 10"
      by (simp add: digits.simps[of n] ToNumber_snoc digit_val_digit_char)
    then show ?thesis by simp
  qed
qed

lemma ToNumber_zeros: "ToNumber (replicate k CHR ''0'' @ m) = ToNumber m"
proof (induction k)
  case 0
  then show ?case by simp
next
  case (Suc k)
  have "ToNumber (CHR ''0'' # replicate k CHR ''0'' @ m)
      = ToNumber (replicate k CHR ''0'' @ m)"
    using ToNumber_append[of "[CHR ''0'']" "replicate k CHR ''0'' @ m"]
      ToNumber_append[of "[]" "replicate k CHR ''0'' @ m"]
    by (simp add: ToNumber_def digit_val_def)
  with Suc show ?case by simp
qed

text \<open>What \<^verbatim>\<open>toFixed(2)\<close> prints for a finite number below \<open>10^21\<close> reads back as the
  number rounded to 2 decimal places.\<close>

lemma read_toFixed2:
  assumes "\<bar>x\<bar> < 10 ^ 21"
  shows "read_fixed2 (toFixed env 2 (Finite x)) = Some (round2 x)"
proof -
  define n where "n = \<lfloor>\<bar>x\<bar> * 100 + 1 / 2\<rfloor>"
  have n0: "0 \<le> n"
  proof -
    have "0 \<le> \<bar>x\<bar> * 100 + 1 / 2" by simp
    then show ?thesis unfolding n_def by (simp only: zero_le_floor)
  qed
  define z where "z = replicate (3 - length (digits n)) CHR ''0'' @ digits n"
  define ip where "ip = take (length z - 2) z"
  define fp where "fp = drop (length z - 2) z"
  define s where "s = (if x < 0 then ''-'' else '''')"
  have tf: "toFixed env 2 (Finite x) = s @ ip @ CHR ''.'' # fp"
    using assms by (simp add: Let_def n_def z_def ip_def fp_def s_def)
  have zd: "list_all is_digit z"
    using digits_all_digit[OF n0] by (auto simp: z_def is_digit_def list_all_iff)
  have zl: "3 \<le> length z" by (simp add: z_def)
  have z: "z = ip @ fp" by (simp add: ip_def fp_def)
  have fl: "length fp = 2" using zl by (simp add: fp_def)
  have il: "ip \<noteq> []" using zl by (auto simp: ip_def)
  have ipd: "list_all is_digit ip" and fpd: "list_all is_digit fp"
    using zd unfolding z by simp_all
  have nd: "\<not> is_digit CHR ''.''" "\<not> is_digit CHR ''-''" by (simp_all add: is_digit_def)
  have hip: "hd ip \<noteq> CHR ''-''"
    using il ipd nd(2) by (cases ip) auto
  have tw: "takeWhile is_digit (ip @ CHR ''.'' # fp) = ip"
    using ipd nd(1) by (simp add: takeWhile_append2 list_all_iff)
  have dw: "dropWhile is_digit (ip @ CHR ''.'' # fp) = CHR ''.'' # fp"
    using ipd nd(1) by (simp add: dropWhile_append2 list_all_iff)
  have zn: "ToNumber ip * 100 + ToNumber fp = n"
    using ToNumber_append[of ip fp] fl ToNumber_zeros[of "3 - length (digits n)" "digits n"]
      ToNumber_digits[OF n0] z by (simp add: z_def)
  have val: "(of_int (ToNumber ip) :: rat) + of_int (ToNumber fp) / 100 = of_int n / 100"
    unfolding zn[symmetric] by simp
  have nn: "n = \<lfloor>\<bar>x\<bar> * 100 + 1 / 2\<rfloor>" by (rule n_def)
  show ?thesis
  proof (cases "x < 0")
    case True
    then have "read_fixed2 (toFixed env 2 (Finite x))
        = Some (- 1 * (of_int (ToNumber ip) + of_int (ToNumber fp) / 100))"
      unfolding tf using il fl fpd tw dw
      by (simp add: s_def read_fixed2_def Let_def)
    then show ?thesis using True val nn by (simp add: round2_def)
  next
    case False
    then have "read_fixed2 (toFixed env 2 (Finite x))
        = Some (of_int (ToNumber ip) + of_int (ToNumber fp) / 100)"
      unfolding tf using il fl fpd tw dw hip
      by (simp add: s_def read_fixed2_def Let_def)
    then show ?thesis using False val nn by (simp add: round2_def)
  qed
qed

lemma round2_near: "\<bar>round2 x - x\<bar> \<le> 1 / 200"
proof -
  define y where "y = \<bar>x\<bar> * 100 + 1 / 2"
  have f: "of_int \<lfloor>y\<rfloor> \<le> y" "y < of_int \<lfloor>y\<rfloor> + 1" by linarith+
  define d where "d = of_int \<lfloor>y\<rfloor> - \<bar>x\<bar> * 100"
  have d: "- (1 / 2) < d" "d \<le> 1 / 2" using f y_def unfolding d_def by linarith+
  have e: "of_int \<lfloor>y\<rfloor> / 100 - \<bar>x\<bar> = d / 100" by (simp add: d_def diff_divide_distrib)
  have b: "\<bar>d / 100\<bar> \<le> 1 / 200" using d by (simp add: abs_le_iff)
  have a: "\<bar>of_int \<lfloor>y\<rfloor> / 100 - \<bar>x\<bar>\<bar> \<le> 1 / 200" unfolding e by (rule b)
  show ?thesis
  proof (cases "x < 0")
    case True
    then have "round2 x - x = - (of_int \<lfloor>y\<rfloor> / 100 - \<bar>x\<bar>)"
      by (simp add: round2_def y_def)
    then have "\<bar>round2 x - x\<bar> = \<bar>of_int \<lfloor>y\<rfloor> / 100 - \<bar>x\<bar>\<bar>"
      by (simp only: abs_minus_cancel)
    then show ?thesis using a by (simp only:)
  next
    case False
    then have "round2 x - x = of_int \<lfloor>y\<rfloor> / 100 - \<bar>x\<bar>"
      by (simp add: round2_def y_def)
    then show ?thesis using a by (simp only:)
  qed
qed

lemma averageReading_nonempty:
  "ls \<noteq> [] \<Longrightarrow> averageReading env ls = toFixed env 2 (double_mean ls)"
  by (simp add: averageReading_def double_mean_def)

text \<open>Additions that do not round add exactly.\<close>

lemma double_sum_exact:
  "list_all (\<lambda>k. is_double (sum_list (map leitura (take k ls)))) [0..<Suc (length ls)] \<Longrightarrow>
   foldl (\<lambda>acc curr. fadd acc (Finite (leitura curr))) (Finite 0) ls
     = Finite (sum_list (map leitura ls))"
proof (induction ls rule: rev_induct)
  case Nil
  then show ?case by simp
next
  case (snoc r ls)
  have mem: "\<forall>k\<in>set [0..<Suc (length (ls @ [r]))].
      is_double (sum_list (map leitura (take k (ls @ [r]))))"
    using snoc.prems by (simp only: list_all_iff)
  have all: "\<forall>k\<le>Suc (length ls). is_double (sum_list (map leitura (take k (ls @ [r]))))"
  proof (intro allI impI)
    fix k assume "k \<le> Suc (length ls)"
    then have "k \<in> set [0..<Suc (length (ls @ [r]))]" by auto
    with mem show "is_double (sum_list (map leitura (take k (ls @ [r]))))" by (rule bspec)
  qed
  have "\<forall>k\<le>length ls. is_double (sum_list (map leitura (take k ls)))"
  proof (intro allI impI)
    fix k assume k: "k \<le> length ls"
    then have "k \<le> Suc (length ls)" by simp
    with all have a: "is_double (sum_list (map leitura (take k (ls @ [r]))))" by blast
    have "take k (ls @ [r]) = take k ls" using k by simp
    with a show "is_double (sum_list (map leitura (take k ls)))" by (simp only:)
  qed
  then have "list_all (\<lambda>k. is_double (sum_list (map leitura (take k ls)))) [0..<Suc (length ls)]"
    by (auto simp: list_all_iff)
  then have ih: "foldl (\<lambda>acc curr. fadd acc (Finite (leitura curr))) (Finite 0) ls
     = Finite (sum_list (map leitura ls))" by (rule snoc.IH)
  from all have "is_double (sum_list (map leitura (take (Suc (length ls)) (ls @ [r]))))"
    by blast
  then have "fround (sum_list (map leitura ls) + leitura r)
      = Finite (sum_list (map leitura ls) + leitura r)"
    by (simp add: is_double_def)
  with ih show ?case by simp
qed

lemma double_mean_exact:
  assumes "ls \<noteq> []" and "exact_operations ls"
  shows "double_mean ls = Finite (mean ls)"
proof -
  from assms(2) have s: "foldl (\<lambda>acc curr. fadd acc (Finite (leitura curr))) (Finite 0) ls
     = Finite (sum_list (map leitura ls))"
    and m: "fround (mean ls) = Finite (mean ls)"
    by (simp_all add: exact_operations_def double_sum_exact is_double_def)
  from assms(1) have "length ls \<noteq> 0" by simp
  then show ?thesis using s m by (simp add: double_mean_def mean_def)
qed

text \<open>The list \<^verbatim>\<open>[1e16, 1, 1]\<close>: both additions of 1 are lost, and the quotient of
  \<^verbatim>\<open>1e16\<close> by 3 rounds to a half.\<close>

lemma averageReading_absorbed_ones:
  "averageReading env
     [r_xmas\<lparr>leitura := 10000000000000000\<rparr>, r_xmas\<lparr>leitura := 1\<rparr>, r_xmas\<lparr>leitura := 1\<rparr>]
   = ''3333333333333333.50''"
  by code_simp

text \<open>
  C4 as stated fails. The doubles nearest to 8.87 and 17.28 have a sum that rounds down to
  the double of 26.15, and half of it is the double just below 13.075: the code prints
  \<^verbatim>\<open>"13.07"\<close>, while the arithmetic mean of the two values lies above 13.075 and rounds to
  13.08. And a mean of \<open>10^21\<close> is not printed with two decimals.
\<close>

theorem averageReading_exact_mean_counterexample:
  "fround (887 / 100) = Finite (leitura r_low) \<and> fround (1728 / 100) = Finite (leitura r_high)
   \<and> averageReading sample_env [r_low, r_high] = ''13.07''
   \<and> read_fixed2 ''13.07'' = Some (1307 / 100)
   \<and> round2 (mean [r_low, r_high]) = 1308 / 100
   \<and> averageReading sample_env [r_low\<lparr>leitura := 10 ^ 21\<rparr>] = ''1e+21''
   \<and> read_fixed2 ''1e+21'' = None"
  by code_simp

text \<open>
  C4, amended: \<^verbatim>\<open>averageReading\<close> is \<^verbatim>\<open>"N/A"\<close> on the empty list. On a non-empty list it
  prints the mean as the code computes it in double arithmetic: the \<^verbatim>\<open>leitura\<close> values
  added from 0, left to right, and the sum divided by the length, each operation rounded
  to the nearest double. When that double is finite and below \<open>10^21\<close> in magnitude, the
  result is a string in fixed notation with two decimals that denotes the double rounded
  to 2 decimal places, within \<open>1/200\<close> of it. The double is the arithmetic mean of the
  \<^verbatim>\<open>leitura\<close> fields when no addition and no division rounds. For two readings with
  \<^verbatim>\<open>leitura\<close> 2 and 4 the result is \<^verbatim>\<open>"3.00"\<close>.
\<close>

theorem averageReading_double_mean:
  "averageReading env [] = ''N/A''
   \<and> (ls \<noteq> [] \<longrightarrow> averageReading env ls = toFixed env 2 (double_mean ls))
   \<and> (ls \<noteq> [] \<and> double_mean ls = Finite m \<and> \<bar>m\<bar> < 10 ^ 21 \<longrightarrow>
        read_fixed2 (averageReading env ls) = Some (round2 m)
        \<and> \<bar>round2 m - m\<bar> \<le> 1 / 200)
   \<and> (ls \<noteq> [] \<and> exact_operations ls \<longrightarrow> double_mean ls = Finite (mean ls))
   \<and> (leitura a = 2 \<and> leitura b = 4 \<longrightarrow> averageReading env [a, b] = ''3.00'')"
proof (intro conjI impI)
  show "averageReading env [] = ''N/A''" by (simp add: averageReading_def)
next
  assume "ls \<noteq> []"
  then show "averageReading env ls = toFixed env 2 (double_mean ls)"
    by (rule averageReading_nonempty)
next
  assume "ls \<noteq> [] \<and> double_mean ls = Finite m \<and> \<bar>m\<bar> < 10 ^ 21"
  then show "read_fixed2 (averageReading env ls) = Some (round2 m)"
    using read_toFixed2[of m env] by (simp add: averageReading_nonempty)
next
  show "\<bar>round2 m - m\<bar> \<le> 1 / 200" by (rule round2_near)
next
  assume "ls \<noteq> [] \<and> exact_operations ls"
  then show "double_mean ls = Finite (mean ls)" by (simp add: double_mean_exact)
next
  assume "leitura a = 2 \<and> leitura b = 4"
  then have "double_mean [a, b] = fdiv_length (fadd (fadd (Finite 0) (Finite 2)) (Finite 4)) 2"
    by (simp add: double_mean_def numeral_2_eq_2)
  also have "\<dots> = Finite 3" by code_simp
  finally have "averageReading env [a, b] = toFixed env 2 (Finite 3)"
    by (simp add: averageReading_nonempty)
  also have "\<dots> = ''3.00''" by code_simp
  finally show "averageReading env [a, b] = ''3.00''" .
qed

theorem averageReading_double_mean_witness:
  "averageReading sample_env [] = ''N/A''
   \<and> double_mean [r_low, r_high] = Finite (3680285320491827 / 281474976710656)
   \<and> averageReading sample_env [r_low, r_high] = ''13.07''
   \<and> read_fixed2 (averageReading sample_env [r_low, r_high]) = Some (1307 / 100)
   \<and> round2 (3680285320491827 / 281474976710656) = 1307 / 100
   \<and> exact_operations [r_xmas, r_boxing]
   \<and> double_mean [r_xmas, r_boxing] = Finite (mean [r_xmas, r_boxing])
   \<and> mean [r_xmas, r_boxing] = 3
   \<and> averageReading sample_env [r_xmas, r_boxing] = ''3.00''"
proof -
  note t = averageReading_double_mean[of sample_env "[r_low, r_high]"
      "3680285320491827 / 281474976710656" r_xmas r_boxing]
  note u = averageReading_double_mean[of sample_env "[r_xmas, r_boxing]" _ r_xmas r_boxing]
  have n0: "averageReading sample_env [] = ''N/A''"
    using t[THEN conjunct1] .
  have dm: "double_mean [r_low, r_high] = Finite (3680285320491827 / 281474976710656)"
    by code_simp
  have s: "averageReading sample_env [r_low, r_high] = ''13.07''" by code_simp
  have r: "round2 (3680285320491827 / 281474976710656) = 1307 / 100" by code_simp
  have pre: "[r_low, r_high] \<noteq> []
      \<and> double_mean [r_low, r_high] = Finite (3680285320491827 / 281474976710656)
      \<and> \<bar>3680285320491827 / 281474976710656 :: rat\<bar> < 10 ^ 21"
    using dm by simp
  have rf: "read_fixed2 (averageReading sample_env [r_low, r_high]) = Some (1307 / 100)"
    using t[THEN conjunct2, THEN conjunct2, THEN conjunct1, THEN mp, OF pre, THEN conjunct1]
    unfolding r .
  have ex: "exact_operations [r_xmas, r_boxing]" by code_simp
  have pre2: "[r_xmas, r_boxing] \<noteq> [] \<and> exact_operations [r_xmas, r_boxing]"
    using ex by simp
  have em: "double_mean [r_xmas, r_boxing] = Finite (mean [r_xmas, r_boxing])"
    using u[THEN conjunct2, THEN conjunct2, THEN conjunct2, THEN conjunct1, THEN mp, OF pre2] .
  have m3: "mean [r_xmas, r_boxing] = 3" by code_simp
  have l: "leitura r_xmas = 2 \<and> leitura r_boxing = 4" by (simp add: r_xmas_def r_boxing_def)
  have e3: "averageReading sample_env [r_xmas, r_boxing] = ''3.00''"
    using t[THEN conjunct2, THEN conjunct2, THEN conjunct2, THEN conjunct2, THEN mp, OF l] .
  show ?thesis
    by (intro conjI) (fact n0 dm s rf r ex em m3 e3)+
qed

section \<open>chartData\<close>

lemma map_err_returns: "(\<And>x. f x = Inr (g x)) \<Longrightarrow> map_err f xs = Inr (map g xs)"
  by (induction xs) simp_all

lemma chartData_returns:
  "chartData env ls =
     Inr \<lparr> labels = map (\<lambda>r. toLocaleTimeString env (instant_val env r)) (slice_last 6 ls),
           data = map leitura (slice_last 6 ls) \<rparr>"
proof -
  have "map_err (\<lambda>dado. case instant env dado of
                            Inl e \<Rightarrow> Inl e
                          | Inr d \<Rightarrow> Inr (toLocaleTimeString env d)) (slice_last 6 ls)
        = Inr (map (\<lambda>r. toLocaleTimeString env (instant_val env r)) (slice_last 6 ls))"
    by (rule map_err_returns) (simp add: instant_returns)
  then show ?thesis by (simp add: chartData_def)
qed

lemma slice_last_suffix:
  "ls = take (length ls - n) ls @ slice_last n ls \<and> length (slice_last n ls) = min n (length ls)"
  by (auto simp: slice_last_def)

text \<open>
  C5: for every list of readings \<^verbatim>\<open>chartData\<close> returns a chart whose window \<open>w\<close> is the
  end of the input list, \<open>ls = older @ w\<close>, of length \<open>min 6 (length ls)\<close>, so of at most 6
  entries in the order of the input; the \<^verbatim>\<open>data\<close> are the \<^verbatim>\<open>leitura\<close> values of the window
  and the labels are the time labels of the normalized instants of the window, entry by
  entry.
\<close>

theorem chartData_window:
  "\<exists>c older w. chartData env ls = Inr c
     \<and> ls = older @ w \<and> length w = min 6 (length ls) \<and> length w \<le> 6
     \<and> data c = map leitura w
     \<and> list_all2 (\<lambda>r l. \<exists>d. instant env r = Inr d \<and> l = toLocaleTimeString env d) w (labels c)"
proof -
  let ?w = "slice_last 6 ls"
  let ?c = "\<lparr> labels = map (\<lambda>r. toLocaleTimeString env (instant_val env r)) ?w,
              data = map leitura ?w \<rparr>"
  have "chartData env ls = Inr ?c" by (rule chartData_returns)
  moreover have "ls = take (length ls - 6) ls @ ?w" "length ?w = min 6 (length ls)"
    using slice_last_suffix[of ls 6] by simp_all
  moreover have "length ?w \<le> 6" by (simp add: slice_last_def)
  moreover have "data ?c = map leitura ?w" by simp
  moreover have "list_all2 (\<lambda>r l. \<exists>d. instant env r = Inr d \<and> l = toLocaleTimeString env d)
      ?w (labels ?c)"
    by (simp add: list_all2_conv_all_nth instant_returns)
  ultimately show ?thesis by blast
qed

theorem chartData_window_witness:
  "chartData sample_env [r_boxing, r_xmas, r_garbled, r_absent, r_boxing, r_xmas, r_boxing, r_xmas]
     = Inr \<lparr> labels = [''Invalid Date'', ''Invalid Date'', ''AM'', ''PM'', ''AM'', ''PM''],
             data = [5, 7, 4, 2, 4, 2] \<rparr>
   \<and> (\<exists>c older w.
        chartData sample_env
          [r_boxing, r_xmas, r_garbled, r_absent, r_boxing, r_xmas, r_boxing, r_xmas] = Inr c
      \<and> [r_boxing, r_xmas, r_garbled, r_absent, r_boxing, r_xmas, r_boxing, r_xmas] = older @ w
      \<and> length w = min 6 (length [r_boxing, r_xmas, r_garbled, r_absent, r_boxing, r_xmas, r_boxing, r_xmas])
      \<and> length w \<le> 6
      \<and> data c = map leitura w
      \<and> list_all2 (\<lambda>r l. \<exists>d. instant sample_env r = Inr d \<and> l = toLocaleTimeString sample_env d)
           w (labels c))"
proof
  show "chartData sample_env [r_boxing, r_xmas, r_garbled, r_absent, r_boxing, r_xmas, r_boxing, r_xmas]
     = Inr \<lparr> labels = [''Invalid Date'', ''Invalid Date'', ''AM'', ''PM'', ''AM'', ''PM''],
             data = [5, 7, 4, 2, 4, 2] \<rparr>"
    by code_simp
next
  show "\<exists>c older w.
        chartData sample_env
          [r_boxing, r_xmas, r_garbled, r_absent, r_boxing, r_xmas, r_boxing, r_xmas] = Inr c
      \<and> [r_boxing, r_xmas, r_garbled, r_absent, r_boxing, r_xmas, r_boxing, r_xmas] = older @ w
      \<and> length w = min 6 (length [r_boxing, r_xmas, r_garbled, r_absent, r_boxing, r_xmas, r_boxing, r_xmas])
      \<and> length w \<le> 6
      \<and> data c = map leitura w
      \<and> list_all2 (\<lambda>r l. \<exists>d. instant sample_env r = Inr d \<and> l = toLocaleTimeString sample_env d)
           w (labels c)"
    by (rule chartData_window)
qed

section \<open>pumpStatus\<close>

text \<open>
  C8: on the empty list there is no latest reading and \<^verbatim>\<open>pumpStatus\<close> is \<^verbatim>\<open>"Inativa"\<close>;
  on any list it is \<^verbatim>\<open>"Ativa"\<close> exactly when a latest reading exists and its
  \<^verbatim>\<open>bombaLigada\<close> is \<^verbatim>\<open>"Sim"\<close>, and \<^verbatim>\<open>"Inativa"\<close> otherwise.
\<close>

theorem pumpStatus_labels:
  "latestReading env [] = Inr None \<and> pumpStatus env [] = Inr ''Inativa''
   \<and> (pumpStatus env ls = Inr ''Ativa''
        \<longleftrightarrow> (\<exists>r. latestReading env ls = Inr (Some r) \<and> bombaLigada r = ''Sim''))
   \<and> (pumpStatus env ls = Inr ''Inativa''
        \<longleftrightarrow> (latestReading env ls = Inr None
             \<or> (\<exists>r. latestReading env ls = Inr (Some r) \<and> bombaLigada r \<noteq> ''Sim'')))
   \<and> (\<exists>l. pumpStatus env ls = Inr l)"
proof -
  obtain l where l: "latestReading env ls = Inr l"
  proof (cases ls)
    case Nil
    then show ?thesis using that by (simp add: latestReading_def)
  next
    case (Cons a xs)
    have "\<exists>r. reduce_err (later env) a xs = Inr r"
    proof (induction xs arbitrary: a)
      case Nil
      show ?case by simp
    next
      case (Cons x xs)
      have "\<exists>w. later env a x = Inr w"
        by (cases "instant_val env a"; cases "instant_val env x")
           (simp_all add: later_def instant_returns)
      then show ?case using Cons by auto
    qed
    then show ?thesis using that Cons by (auto simp: latestReading_def)
  qed
  have e: "latestReading env [] = Inr None" by (simp add: latestReading_def)
  have p: "pumpStatus env [] = Inr ''Inativa''" by (simp add: pumpStatus_def e)
  have "(pumpStatus env ls = Inr ''Ativa''
        \<longleftrightarrow> (\<exists>r. latestReading env ls = Inr (Some r) \<and> bombaLigada r = ''Sim''))
   \<and> (pumpStatus env ls = Inr ''Inativa''
        \<longleftrightarrow> (latestReading env ls = Inr None
             \<or> (\<exists>r. latestReading env ls = Inr (Some r) \<and> bombaLigada r \<noteq> ''Sim'')))
   \<and> (\<exists>l. pumpStatus env ls = Inr l)"
    by (cases l) (simp_all add: pumpStatus_def l)
  with e p show ?thesis by blast
qed

theorem pumpStatus_labels_witness:
  "pumpStatus sample_env [] = Inr ''Inativa''
   \<and> latestReading sample_env [r_boxing, r_xmas] = Inr (Some r_boxing)
   \<and> pumpStatus sample_env [r_boxing, r_xmas] = Inr ''Inativa''
   \<and> latestReading sample_env [r_xmas, r_garbled] = Inr (Some r_xmas)
   \<and> pumpStatus sample_env [r_xmas, r_garbled] = Inr ''Ativa''"
proof -
  have a: "latestReading sample_env [r_boxing, r_xmas] = Inr (Some r_boxing)" by code_simp
  have b: "latestReading sample_env [r_xmas, r_garbled] = Inr (Some r_xmas)" by code_simp
  have "pumpStatus sample_env [] = Inr ''Inativa''"
    using pumpStatus_labels[of sample_env "[]", THEN conjunct2, THEN conjunct1] .
  moreover have "pumpStatus sample_env [r_boxing, r_xmas] = Inr ''Inativa''"
    using pumpStatus_labels[of sample_env "[r_boxing, r_xmas]",
        THEN conjunct2, THEN conjunct2, THEN conjunct2, THEN conjunct1] a
    by (simp add: r_boxing_def)
  moreover have "pumpStatus sample_env [r_xmas, r_garbled] = Inr ''Ativa''"
    using pumpStatus_labels[of sample_env "[r_xmas, r_garbled]",
        THEN conjunct2, THEN conjunct2, THEN conjunct1] b
    by (simp add: r_xmas_def)
  ultimately show ?thesis using a b by simp
qed

section \<open>fetchData\<close>

text \<open>
  C7: a response with success status whose JSON body is not an array sets the readings
  to the empty list and clears the error. After any attempt the error is the "failed to
  load data" message exactly when there was no response, a non-success status or a body
  that is not JSON, and it is cleared otherwise, whatever it was before.
\<close>

theorem fetchData_error_flag:
  "leituras (fetchData now (Response True NonArray) s) = []
   \<and> error (fetchData now (Response True NonArray) s) = None
   \<and> (error (fetchData now oc s) = Some ''Falha ao carregar os dados.''
        \<longleftrightarrow> (oc = NoResponse \<or> (\<exists>b. oc = Response False b) \<or> oc = Response True NotJson))
   \<and> (error (fetchData now oc s) = None
        \<longleftrightarrow> (oc = Response True NonArray \<or> (\<exists>rs. oc = Response True (Array rs))))
   \<and> (error (fetchData now oc s) = None
        \<or> error (fetchData now oc s) = Some ''Falha ao carregar os dados.'')"
proof -
  have 1: "leituras (fetchData now (Response True NonArray) s) = []
      \<and> error (fetchData now (Response True NonArray) s) = None"
    by (simp add: fetchData_def fetch_settled_def fetch_started_def)
  have 2: "error (fetchData now oc s) = Some ''Falha ao carregar os dados.''
        \<longleftrightarrow> (oc = NoResponse \<or> (\<exists>b. oc = Response False b) \<or> oc = Response True NotJson)"
  proof (cases oc)
    case NoResponse
    then show ?thesis by (simp add: fetchData_def fetch_settled_def fetch_started_def)
  next
    case (Response ok b)
    then show ?thesis
      by (cases b) (simp_all add: fetchData_def fetch_settled_def fetch_started_def)
  qed
  have 3: "error (fetchData now oc s) = None
        \<longleftrightarrow> (oc = Response True NonArray \<or> (\<exists>rs. oc = Response True (Array rs)))"
  proof (cases oc)
    case NoResponse
    then show ?thesis by (simp add: fetchData_def fetch_settled_def fetch_started_def)
  next
    case (Response ok b)
    then show ?thesis
      by (cases b) (simp_all add: fetchData_def fetch_settled_def fetch_started_def)
  qed
  have 4: "error (fetchData now oc s) = None
        \<or> error (fetchData now oc s) = Some ''Falha ao carregar os dados.''"
  proof (cases oc)
    case NoResponse
    then show ?thesis by (simp add: fetchData_def fetch_settled_def fetch_started_def)
  next
    case (Response ok b)
    then show ?thesis
      by (cases b) (simp_all add: fetchData_def fetch_settled_def fetch_started_def)
  qed
  from 1 2 3 4 show ?thesis by blast
qed

theorem fetchData_error_flag_witness:
  "error (fetchData 5 NoResponse initial_state) = Some ''Falha ao carregar os dados.''
   \<and> error (fetchData 9 (Response True NonArray) (fetchData 5 NoResponse initial_state)) = None
   \<and> leituras (fetchData 9 (Response True NonArray)
         (fetchData 7 (Response True (Array [r_xmas])) initial_state)) = []
   \<and> error (fetchData 9 (Response False (Array [r_xmas])) initial_state)
       = Some ''Falha ao carregar os dados.''
   \<and> error (fetchData 9 (Response True NotJson) initial_state)
       = Some ''Falha ao carregar os dados.''"
proof -
  note f = fetchData_error_flag
  have "error (fetchData 5 NoResponse initial_state) = Some ''Falha ao carregar os dados.''"
    using f[of 5 initial_state NoResponse, THEN conjunct2, THEN conjunct2, THEN conjunct1]
    by simp
  moreover have "error (fetchData 9 (Response True NonArray)
      (fetchData 5 NoResponse initial_state)) = None"
    using f[of 9 "fetchData 5 NoResponse initial_state", THEN conjunct2, THEN conjunct1] .
  moreover have "leituras (fetchData 9 (Response True NonArray)
         (fetchData 7 (Response True (Array [r_xmas])) initial_state)) = []"
    using f[of 9 "fetchData 7 (Response True (Array [r_xmas])) initial_state", THEN conjunct1] .
  moreover have "error (fetchData 9 (Response False (Array [r_xmas])) initial_state)
       = Some ''Falha ao carregar os dados.''"
    using f[of 9 initial_state "Response False (Array [r_xmas])",
        THEN conjunct2, THEN conjunct2, THEN conjunct1]
    by simp
  moreover have "error (fetchData 9 (Response True NotJson) initial_state)
       = Some ''Falha ao carregar os dados.''"
    using f[of 9 initial_state "Response True NotJson",
        THEN conjunct2, THEN conjunct2, THEN conjunct1]
    by simp
  ultimately show ?thesis by simp
qed

text \<open>
  C9: when the attempt fails (no response, a non-success status, or a body that is not
  JSON), the readings and the time of the last refresh are what they were; the state
  changes in the error, set to the message, and in the two loading flags, cleared.
\<close>

theorem fetchData_failure_keeps_snapshot:
  assumes "oc = NoResponse \<or> (\<exists>b. oc = Response False b) \<or> oc = Response True NotJson"
  shows "leituras (fetchData now oc s) = leituras s
    \<and> lastRefresh (fetchData now oc s) = lastRefresh s
    \<and> fetchData now oc s
        = s\<lparr>loading := False, initialLoading := False,
            error := Some ''Falha ao carregar os dados.''\<rparr>"
proof -
  from assms have "\<exists>e. received oc = Inl e" by auto
  then show ?thesis
    by (auto simp: fetchData_def fetch_settled_def fetch_started_def)
qed

theorem fetchData_failure_keeps_snapshot_witness:
  "leituras (fetchData 9 NoResponse (fetchData 7 (Response True (Array [r_xmas])) initial_state))
     = [r_xmas]
   \<and> lastRefresh (fetchData 9 NoResponse
        (fetchData 7 (Response True (Array [r_xmas])) initial_state)) = 7
   \<and> fetchData 9 NoResponse (fetchData 7 (Response True (Array [r_xmas])) initial_state)
     = \<lparr>leituras = [r_xmas], loading = False, initialLoading = False,
        error = Some ''Falha ao carregar os dados.'', lastRefresh = 7\<rparr>"
proof -
  have s: "fetchData 7 (Response True (Array [r_xmas])) initial_state
      = \<lparr>leituras = [r_xmas], loading = False, initialLoading = False,
         error = None, lastRefresh = 7\<rparr>"
    by (simp add: fetchData_def fetch_settled_def fetch_started_def initial_state_def)
  have "NoResponse = NoResponse \<or> (\<exists>b. NoResponse = Response False b)
      \<or> NoResponse = Response True NotJson" by simp
  from fetchData_failure_keeps_snapshot[OF this,
      of 9 "fetchData 7 (Response True (Array [r_xmas])) initial_state"]
  show ?thesis unfolding s by simp
qed

section \<open>parseTimestamp\<close>

lemma parseString_cases:
  "parseString env s = invalidDate env \<or> (\<exists>t. parseString env s = Some t)"
  by (auto simp: parseString_def split: option.splits)

text \<open>A number beyond the range of time values is not a valid date and has no
  \<^verbatim>\<open>match\<close> method: here \<^verbatim>\<open>parseTimestamp\<close> throws.\<close>

lemma parseTimestamp_number_throws:
  "parseTimestamp env (JNum 10000000000000000) = Inl TypeError"
  by (simp add: Date_number_def)

text \<open>
  C10: on an input that is absent (undefined or null) or a string, \<^verbatim>\<open>parseTimestamp\<close>
  does not throw: it returns a date, which is the invalid marker or a valid instant.
\<close>

theorem parseTimestamp_total:
  assumes "v = JUndefined \<or> v = JNull \<or> (\<exists>s. v = JStr s)"
  shows "\<exists>d. parseTimestamp env v = Inr d \<and> (d = invalidDate env \<or> (\<exists>t. d = Some t))"
  using assms parseString_cases[of env] by auto

theorem parseTimestamp_total_witness:
  "(\<exists>d. parseTimestamp sample_env JUndefined = Inr d
        \<and> (d = invalidDate sample_env \<or> (\<exists>t. d = Some t)))
   \<and> (\<exists>d. parseTimestamp sample_env JNull = Inr d
        \<and> (d = invalidDate sample_env \<or> (\<exists>t. d = Some t)))
   \<and> (\<exists>d. parseTimestamp sample_env (JStr ''25/12/2024 14:30:00'') = Inr d
        \<and> (d = invalidDate sample_env \<or> (\<exists>t. d = Some t)))
   \<and> parseTimestamp sample_env (JStr ''25/12/2024 14:30:00'') = Inr (Some 1735137000000)
   \<and> parseTimestamp sample_env (JStr ''not-a-date'') = Inr None"
proof -
  have "parseTimestamp sample_env (JStr ''25/12/2024 14:30:00'') = Inr (Some 1735137000000)"
    by code_simp
  moreover have "parseTimestamp sample_env (JStr ''not-a-date'') = Inr None"
    by code_simp
  ultimately show ?thesis
    using parseTimestamp_total[of JUndefined sample_env]
      parseTimestamp_total[of JNull sample_env]
      parseTimestamp_total[of "JStr ''25/12/2024 14:30:00''" sample_env]
    by simp
qed

subsection \<open>The pattern\<close>

lemma length_ts_pattern: "length ts_pattern = 19"
  by (simp add: ts_pattern_def)

lemma match_at_not_digit: "\<not> is_digit c \<Longrightarrow> \<not> match_at (c # s)"
  by (simp add: match_at_def ts_pattern_def)

lemma regex_match_skip:
  "list_all (\<lambda>c. \<not> is_digit c) pre \<Longrightarrow> regex_match (pre @ s) = regex_match s"
proof (induction pre)
  case Nil
  then show ?case by simp
next
  case (Cons c pre)
  then have "\<not> match_at (c # pre @ s)" by (simp add: match_at_not_digit)
  then have "regex_match (c # pre @ s) = regex_match (pre @ s)"
    by (simp add: regex_match.simps[of "c # pre @ s"])
  with Cons show ?case by simp
qed

lemma regex_match_here:
  assumes "list_all2 atom_matches ts_pattern m"
  shows "regex_match (m @ suf) = Some m"
proof -
  have l: "length m = 19" using list_all2_lengthD[OF assms] by (simp add: length_ts_pattern)
  then have "match_at (m @ suf)" using assms by (simp add: match_at_def length_ts_pattern)
  then show ?thesis using l by (simp add: regex_match.simps[of "m @ suf"] length_ts_pattern)
qed

lemma regex_match_absent:
  "(\<And>pre m suf. s = pre @ m @ suf \<Longrightarrow> \<not> list_all2 atom_matches ts_pattern m) \<Longrightarrow>
   regex_match s = None"
proof (induction s)
  case Nil
  have "\<not> match_at []" by (simp add: match_at_def length_ts_pattern)
  then show ?case by (simp add: regex_match.simps[of "[]"])
next
  case (Cons c s)
  have "\<not> match_at (c # s)"
  proof
    assume m: "match_at (c # s)"
    have "c # s = [] @ take 19 (c # s) @ drop 19 (c # s)" by simp
    from Cons.prems[OF this] m show False by (simp add: match_at_def length_ts_pattern)
  qed
  moreover have "regex_match s = None"
  proof (rule Cons.IH)
    fix pre m suf assume "s = pre @ m @ suf"
    then have "c # s = (c # pre) @ m @ suf" by simp
    then show "\<not> list_all2 atom_matches ts_pattern m" by (rule Cons.prems)
  qed
  ultimately show ?case by (simp add: regex_match.simps[of "c # s"])
qed

lemma two_digits_digit: "n < 100 \<Longrightarrow> list_all is_digit (two_digits n)"
  by (simp add: two_digits_def is_digit_digit_char)

lemma four_digits_digit: "n < 10000 \<Longrightarrow> list_all is_digit (four_digits n)"
  by (simp add: four_digits_def is_digit_digit_char)

lemma ToNumber_two_digits: "n < 100 \<Longrightarrow> ToNumber (two_digits n) = int n"
proof -
  assume n: "n < 100"
  then have "ToNumber (two_digits n) = 10 * int (n div 10) + int (n mod 10)"
    by (simp add: two_digits_def ToNumber_def digit_val_digit_char)
  also have "\<dots> = int (10 * (n div 10) + n mod 10)"
    by (simp only: of_nat_add of_nat_mult of_nat_numeral)
  also have "\<dots> = int n" by simp
  finally show ?thesis .
qed

lemma ToNumber_four_digits: "n < 10000 \<Longrightarrow> ToNumber (four_digits n) = int n"
proof -
  assume n: "n < 10000"
  then have "ToNumber (four_digits n)
      = 1000 * int (n div 1000) + 100 * int (n div 100 mod 10)
        + 10 * int (n div 10 mod 10) + int (n mod 10)"
    by (simp add: four_digits_def ToNumber_def digit_val_digit_char)
  also have "\<dots> = int (1000 * (n div 1000) + 100 * (n div 100 mod 10)
        + 10 * (n div 10 mod 10) + n mod 10)"
    by (simp only: of_nat_add of_nat_mult of_nat_numeral)
  also have "1000 * (n div 1000) + 100 * (n div 100 mod 10)
        + 10 * (n div 10 mod 10) + n mod 10 = n"
  proof -
    have a: "n mod 100 = 10 * (n div 10 mod 10) + n mod 10"
      using mod_mult2_eq[of n 10 10] by simp
    have b: "n mod 1000 = 100 * (n div 100 mod 10) + n mod 100"
      using mod_mult2_eq[of n 100 10] by simp
    have c: "n = 1000 * (n div 1000) + n mod 1000" by simp
    show ?thesis using a b c by linarith
  qed
  finally show ?thesis .
qed

lemma ts_text_matches:
  assumes "D < 100" "M < 100" "Y < 10000" "h < 100" "mi < 100" "se < 100" "is_space w"
  shows "list_all2 atom_matches ts_pattern (ts_text D M Y w h mi se)"
  using assms
  by (simp add: ts_pattern_def ts_text_def two_digits_def four_digits_def is_digit_digit_char)

lemma parts_ts_text:
  "parts (ts_text D M Y w h mi se) (Suc 0) = two_digits D"
  "parts (ts_text D M Y w h mi se) 2 = two_digits M"
  "parts (ts_text D M Y w h mi se) 3 = four_digits Y"
  "parts (ts_text D M Y w h mi se) 4 = two_digits h"
  "parts (ts_text D M Y w h mi se) 5 = two_digits mi"
  "parts (ts_text D M Y w h mi se) 6 = two_digits se"
  by (simp_all add: parts_def ts_text_def two_digits_def four_digits_def)

lemma parseString_ts_text:
  assumes "D < 100" "M < 100" "Y < 10000" "h < 100" "mi < 100" "se < 100" "is_space w"
    and "list_all (\<lambda>c. \<not> is_digit c) pre"
    and "date_parse env (pre @ ts_text D M Y w h mi se @ suf) = None"
  shows "parseString env (pre @ ts_text D M Y w h mi se @ suf)
     = (case Date_fields env (int Y) (int M - 1) (int D) (int h) (int mi) (int se) of
          Some t \<Rightarrow> Some t | None \<Rightarrow> invalidDate env)"
proof -
  have "regex_match (pre @ ts_text D M Y w h mi se @ suf) = Some (ts_text D M Y w h mi se)"
    using regex_match_skip[OF assms(8)] regex_match_here[OF ts_text_matches[OF assms(1-7)]]
    by simp
  then show ?thesis
    using assms(1-6,9)
    by (simp add: parseString_def parts_ts_text ToNumber_two_digits ToNumber_four_digits)
qed

lemma ts_text_xmas: "''25/12/2024 14:30:00'' = ts_text 25 12 2024 CHR '' '' 14 30 0"
  by code_simp

lemma local_xmas: "MakeDate (MakeDay 2024 11 25) (MakeTime 14 30 0 0) = 1735137000000"
  by code_simp

lemma regex_match_not_a_date: "regex_match ''not-a-date'' = None"
  by code_simp

text \<open>
  C6: \<^verbatim>\<open>parseTimestamp\<close> returns the invalid marker for an absent or empty input; for a
  string it returns the direct parse when that succeeds; when it fails and the text
  \<^verbatim>\<open>DD/MM/YYYY HH:MM:SS\<close> stands in the string (behind characters that are not digits), the
  result is the date built from year \<open>Y\<close>, month \<open>M\<close> (counted from 1), day \<open>D\<close> and the
  time \<open>h:mi:se\<close> on the 24-hour clock, as local time, or the invalid marker when that is
  out of range; when the direct parse fails and the pattern occurs nowhere in the string,
  it is the invalid marker. For an engine that does not parse them directly,
  \<^verbatim>\<open>"25/12/2024 14:30:00"\<close> gives 25 December 2024, 14:30:00 local time and
  \<^verbatim>\<open>"not-a-date"\<close> gives an invalid date.
\<close>

theorem parseTimestamp_fallback:
  "(v = JUndefined \<or> v = JNull \<or> v = JStr [] \<longrightarrow> parseTimestamp env v = Inr (invalidDate env))
   \<and> (s \<noteq> [] \<and> date_parse env s = Some t \<longrightarrow> parseTimestamp env (JStr s) = Inr (Some t))
   \<and> (D < 100 \<and> M < 100 \<and> Y < 10000 \<and> h < 100 \<and> mi < 100 \<and> se < 100 \<and> is_space w
        \<and> list_all (\<lambda>c. \<not> is_digit c) pre
        \<and> date_parse env (pre @ ts_text D M Y w h mi se @ suf) = None
      \<longrightarrow> parseTimestamp env (JStr (pre @ ts_text D M Y w h mi se @ suf))
          = Inr (case Date_fields env (int Y) (int M - 1) (int D) (int h) (int mi) (int se) of
                   Some u \<Rightarrow> Some u | None \<Rightarrow> invalidDate env))
   \<and> (date_parse env s = None
        \<and> (\<forall>pre m suf. s = pre @ m @ suf \<longrightarrow> \<not> list_all2 atom_matches ts_pattern m)
      \<longrightarrow> parseTimestamp env (JStr s) = Inr (invalidDate env))
   \<and> (date_parse env ''25/12/2024 14:30:00'' = None
        \<and> \<bar>local_to_utc env 1735137000000\<bar> \<le> 8640000000000000
      \<longrightarrow> parseTimestamp env (JStr ''25/12/2024 14:30:00'')
            = Inr (Some (local_to_utc env (MakeDate (MakeDay 2024 11 25) (MakeTime 14 30 0 0))))
          \<and> MakeDate (MakeDay 2024 11 25) (MakeTime 14 30 0 0) = 1735137000000)
   \<and> (date_parse env ''not-a-date'' = None \<and> date_parse env ''invalid'' = None
      \<longrightarrow> parseTimestamp env (JStr ''not-a-date'') = Inr None)"
proof (intro conjI impI)
  assume "v = JUndefined \<or> v = JNull \<or> v = JStr []"
  then show "parseTimestamp env v = Inr (invalidDate env)" by auto
next
  assume "s \<noteq> [] \<and> date_parse env s = Some t"
  then show "parseTimestamp env (JStr s) = Inr (Some t)" by (simp add: parseString_def)
next
  assume a: "D < 100 \<and> M < 100 \<and> Y < 10000 \<and> h < 100 \<and> mi < 100 \<and> se < 100 \<and> is_space w
        \<and> list_all (\<lambda>c. \<not> is_digit c) pre
        \<and> date_parse env (pre @ ts_text D M Y w h mi se @ suf) = None"
  have ne: "ts_text D M Y w h mi se \<noteq> []" by (simp add: ts_text_def two_digits_def)
  have "parseString env (pre @ ts_text D M Y w h mi se @ suf)
     = (case Date_fields env (int Y) (int M - 1) (int D) (int h) (int mi) (int se) of
          Some t \<Rightarrow> Some t | None \<Rightarrow> invalidDate env)"
    using a by (intro parseString_ts_text) simp_all
  with ne show "parseTimestamp env (JStr (pre @ ts_text D M Y w h mi se @ suf))
          = Inr (case Date_fields env (int Y) (int M - 1) (int D) (int h) (int mi) (int se) of
                   Some u \<Rightarrow> Some u | None \<Rightarrow> invalidDate env)"
    by simp
next
  assume a: "date_parse env s = None
        \<and> (\<forall>pre m suf. s = pre @ m @ suf \<longrightarrow> \<not> list_all2 atom_matches ts_pattern m)"
  then have "regex_match s = None" by (intro regex_match_absent) blast
  with a show "parseTimestamp env (JStr s) = Inr (invalidDate env)"
    by (simp add: parseString_def)
next
  assume a: "date_parse env ''25/12/2024 14:30:00'' = None
        \<and> \<bar>local_to_utc env 1735137000000\<bar> \<le> 8640000000000000"
  have "parseString env ([] @ ts_text 25 12 2024 CHR '' '' 14 30 0 @ [])
     = (case Date_fields env (int 2024) (int 12 - 1) (int 25) (int 14) (int 30) (int 0) of
          Some t \<Rightarrow> Some t | None \<Rightarrow> invalidDate env)"
    using a by (intro parseString_ts_text) (simp_all add: is_space_def flip: ts_text_xmas)
  moreover have "Date_fields env 2024 11 25 14 30 0 = Some (local_to_utc env 1735137000000)"
    using a by (simp add: Date_fields_def local_xmas TimeClip_def)
  ultimately have "parseString env ''25/12/2024 14:30:00'' = Some (local_to_utc env 1735137000000)"
    by (simp flip: ts_text_xmas)
  then show "parseTimestamp env (JStr ''25/12/2024 14:30:00'')
      = Inr (Some (local_to_utc env (MakeDate (MakeDay 2024 11 25) (MakeTime 14 30 0 0))))"
    by (simp add: local_xmas)
next
  show "MakeDate (MakeDay 2024 11 25) (MakeTime 14 30 0 0) = 1735137000000"
    by (rule local_xmas)
next
  assume "date_parse env ''not-a-date'' = None \<and> date_parse env ''invalid'' = None"
  then show "parseTimestamp env (JStr ''not-a-date'') = Inr None"
    by (simp add: parseString_def regex_match_not_a_date invalidDate_def)
qed

theorem parseTimestamp_fallback_witness:
  "parseTimestamp sample_env JUndefined = Inr None
   \<and> parseTimestamp sample_env (JStr ''2024-12-25T14:30:00.000Z'') = Inr (Some 1735137000000)
   \<and> parseTimestamp sample_env (JStr ''em 25/12/2024 14:30:00h'') = Inr (Some 1735137000000)
   \<and> parseTimestamp sample_env (JStr ''25/12/2024 14:30:00'') = Inr (Some 1735137000000)
   \<and> parseTimestamp sample_env (JStr ''not-a-date'') = Inr None"
proof -
  note f = parseTimestamp_fallback
  have inv: "invalidDate sample_env = None" by code_simp
  have 1: "parseTimestamp sample_env JUndefined = Inr None"
    using f[of JUndefined sample_env, THEN conjunct1] inv by simp
  have "''2024-12-25T14:30:00.000Z'' \<noteq> []
      \<and> date_parse sample_env ''2024-12-25T14:30:00.000Z'' = Some 1735137000000"
    by (simp add: sample_env_def)
  from f[of _ sample_env "''2024-12-25T14:30:00.000Z''" 1735137000000,
      THEN conjunct2, THEN conjunct1, THEN mp, OF this]
  have 2: "parseTimestamp sample_env (JStr ''2024-12-25T14:30:00.000Z'') = Inr (Some 1735137000000)" .
  have t: "''em 25/12/2024 14:30:00h'' = ''em '' @ ts_text 25 12 2024 CHR '' '' 14 30 0 @ ''h''"
    by code_simp
  have "(25::nat) < 100 \<and> (12::nat) < 100 \<and> (2024::nat) < 10000 \<and> (14::nat) < 100
      \<and> (30::nat) < 100 \<and> (0::nat) < 100 \<and> is_space CHR '' ''
      \<and> list_all (\<lambda>c. \<not> is_digit c) ''em ''
      \<and> date_parse sample_env (''em '' @ ts_text 25 12 2024 CHR '' '' 14 30 0 @ ''h'') = None"
    unfolding t[symmetric] by (simp add: sample_env_def is_space_def is_digit_def)
  from f[of _ sample_env _ _ 25 12 2024 14 30 0 "CHR '' ''" "''em ''" "''h''",
      THEN conjunct2, THEN conjunct2, THEN conjunct1, THEN mp, OF this]
  have "parseTimestamp sample_env (JStr ''em 25/12/2024 14:30:00h'')
      = Inr (case Date_fields sample_env (int 2024) (int 12 - 1) (int 25) (int 14) (int 30) (int 0) of
               Some u \<Rightarrow> Some u | None \<Rightarrow> invalidDate sample_env)"
    unfolding t[symmetric] .
  moreover have "Date_fields sample_env (int 2024) (int 12 - 1) (int 25) (int 14) (int 30) (int 0)
      = Some 1735137000000" by code_simp
  ultimately have 3: "parseTimestamp sample_env (JStr ''em 25/12/2024 14:30:00h'')
      = Inr (Some 1735137000000)" by simp
  have "date_parse sample_env ''25/12/2024 14:30:00'' = None
        \<and> \<bar>local_to_utc sample_env 1735137000000\<bar> \<le> 8640000000000000"
    by (simp add: sample_env_def)
  from f[of _ sample_env, THEN conjunct2, THEN conjunct2, THEN conjunct2, THEN conjunct2,
      THEN conjunct1, THEN mp, OF this, THEN conjunct1]
  have 4: "parseTimestamp sample_env (JStr ''25/12/2024 14:30:00'') = Inr (Some 1735137000000)"
    by (simp add: local_xmas sample_env_def)
  have "date_parse sample_env ''not-a-date'' = None \<and> date_parse sample_env ''invalid'' = None"
    by (simp add: sample_env_def)
  from f[of _ sample_env, THEN conjunct2, THEN conjunct2, THEN conjunct2, THEN conjunct2,
      THEN conjunct2, THEN mp, OF this]
  have 5: "parseTimestamp sample_env (JStr ''not-a-date'') = Inr None" .
  have "date_parse sample_env ''not-a-date'' = None
        \<and> (\<forall>pre m suf. ''not-a-date'' = pre @ m @ suf \<longrightarrow> \<not> list_all2 atom_matches ts_pattern m)"
  proof (intro conjI allI impI)
    show "date_parse sample_env ''not-a-date'' = None" by (simp add: sample_env_def)
  next
    fix pre m suf assume e: "''not-a-date'' = pre @ m @ suf"
    show "\<not> list_all2 atom_matches ts_pattern m"
    proof
      assume "list_all2 atom_matches ts_pattern m"
      then have "length m = 19" using list_all2_lengthD length_ts_pattern by metis
      moreover have "length (pre @ m @ suf) = 10" unfolding e[symmetric] by simp
      ultimately show False by simp
    qed
  qed
  from f[of _ sample_env "''not-a-date''", THEN conjunct2, THEN conjunct2, THEN conjunct2,
      THEN conjunct1, THEN mp, OF this]
  have 6: "parseTimestamp sample_env (JStr ''not-a-date'') = Inr (invalidDate sample_env)" .
  show ?thesis using 1 2 3 4 5 6 by simp
qed

end
